theory Spec2Isabelle
  imports Complex_Main "HOL-Library.Sublist" "HOL-Library.AList"
begin

section \<open>Strings\<close>

text \<open>
  Python strings are modelled as \<open>string\<close>, one \<open>char\<close> per character.  \<open>str(n)\<close> of a
  non-negative integer is its decimal representation without leading zeros, and
  \<open>s.zfill(w)\<close> of an unsigned numeral pads it on the left with \<open>0\<close> up to width \<open>w\<close>.
\<close>

definition digit_char :: "nat \<Rightarrow> char" where
  "digit_char d = ''0123456789'' ! d"

function str :: "nat \<Rightarrow> string" where
  "str n = (if n < 10 then [digit_char n] else str (n div 10) @ [digit_char (n mod 10)])"
  by pat_completeness auto
termination
  by (relation "measure id") auto

declare str.simps [simp del]

definition zfill :: "nat \<Rightarrow> string \<Rightarrow> string" where
  "zfill w s = replicate (w - length s) CHR ''0'' @ s"

text \<open>
  \<open>a in b\<close> on strings is the contiguous-substring test; \<open>s.endswith(t)\<close> is the suffix
  test.  \<open>s.lower()\<close> is not defined here: Python folds every cased letter of its character
  set, so the function is a parameter (\<open>lower\<close>) of the definitions that call it.
\<close>

definition py_in :: "string \<Rightarrow> string \<Rightarrow> bool" where
  "py_in a b = sublist a b"

definition endswith :: "string \<Rightarrow> string \<Rightarrow> bool" where
  "endswith s t = suffix t s"

section \<open>The filesystem\<close>

text \<open>
  A filesystem state is a finite tree.  A directory holds its entries in the order in which
  \<open>os.listdir\<close> reports them; a regular file holds its page list when it is a readable PDF
  document and \<open>None\<close> otherwise.  Paths are resolved from the root of the tree (the
  working directory of the process is taken to be \<open>/\<close>), component by component, the way
  the operating system does it: every component is looked up in a directory that must
  exist, \<open>.\<close> and the empty component stay, \<open>..\<close> moves to the parent.
\<close>

datatype 'p node = File "'p list option" | Dir "(string \<times> 'p node) list"

fun node_at :: "'p node \<Rightarrow> string list \<Rightarrow> 'p node option" where
  "node_at n [] = Some n"
| "node_at (File _) (c # cs) = None"
| "node_at (Dir es) (c # cs) =
     (case map_of es c of None \<Rightarrow> None | Some n \<Rightarrow> node_at n cs)"

fun is_dir_node :: "'p node option \<Rightarrow> bool" where
  "is_dir_node (Some (Dir _)) = True"
| "is_dir_node _ = False"

fun components :: "string \<Rightarrow> string list" where
  "components [] = [[]]"
| "components (c # cs) =
     (if c = CHR ''/'' then [] # components cs
      else (case components cs of [] \<Rightarrow> [[c]] | x # xs \<Rightarrow> (c # x) # xs))"

fun walk :: "'p node \<Rightarrow> string list \<Rightarrow> string list \<Rightarrow> string list option" where
  "walk fs cur [] = Some cur"
| "walk fs cur (c # cs) =
     (if \<not> is_dir_node (node_at fs cur) then None
      else if c = [] \<or> c = ''.'' then walk fs cur cs
      else if c = ''..'' then walk fs (butlast cur) cs
      else walk fs (cur @ [c]) cs)"

definition resolve :: "'p node \<Rightarrow> string \<Rightarrow> 'p node option" where
  "resolve fs p =
     (if p = [] then None
      else case walk fs [] (components p) of None \<Rightarrow> None | Some q \<Rightarrow> node_at fs q)"

definition path_exists :: "'p node \<Rightarrow> string \<Rightarrow> bool" where
  "path_exists fs p = (resolve fs p \<noteq> None)"

definition isdir :: "'p node \<Rightarrow> string \<Rightarrow> bool" where
  "isdir fs p = is_dir_node (resolve fs p)"

text \<open>\<open>os.path.join(a, b)\<close> on POSIX.\<close>

definition path_join :: "string \<Rightarrow> string \<Rightarrow> string" where
  "path_join a b =
     (if b \<noteq> [] \<and> hd b = CHR ''/'' then b
      else if a = [] \<or> last a = CHR ''/'' then a @ b
      else a @ ''/'' @ b)"

section \<open>Identifier generator\<close>

text \<open>
  \<open>generate_quotation_number(output_dir)\<close>.  The results of the successive calls of
  \<open>random.randint(1, 9999)\<close> are the sequence \<open>draws\<close>: \<open>draws 0\<close> is the first draw and
  \<open>draws k\<close> the draw of the \<open>k\<close>-th pass through the loop body, where \<open>counter = k\<close>.
  The \<open>while\<close> loop has no bound in the source, so not returning is the value \<open>None\<close>.
\<close>

definition candidate :: "nat \<Rightarrow> string" where
  "candidate n = ''Q-'' @ zfill 3 (str n)"

partial_function (option) probe ::
  "'p node \<Rightarrow> string \<Rightarrow> (nat \<Rightarrow> nat) \<Rightarrow> nat \<Rightarrow> string \<Rightarrow> string option" where
  "probe fs output_dir draws counter quotation_no =
     (if path_exists fs (path_join output_dir (quotation_no @ ''.pdf''))
      then probe fs output_dir draws (counter + 1) (candidate (draws counter + counter * 10000))
      else Some quotation_no)"

definition generate_quotation_number ::
  "'p node \<Rightarrow> string \<Rightarrow> (nat \<Rightarrow> nat) \<Rightarrow> string option" where
  "generate_quotation_number fs output_dir draws = probe fs output_dir draws 1 (candidate (draws 0))"

text \<open>
  The submission handler stores a quotation under the name
  \<open><quotation_no>_<sanitized client name>.pdf\<close> in the representative's directory.
\<close>

definition output_file_name :: "string \<Rightarrow> string \<Rightarrow> string \<Rightarrow> string" where
  "output_file_name output_dir quotation_no safe_client_name =
     path_join output_dir (quotation_no @ ''_'' @ safe_client_name @ ''.pdf'')"

section \<open>Download\<close>

text \<open>
  \<open>download_file\<close> of \<open>downlod.py\<close>.  The first statement of the function reads the global
  name \<open>request\<close>.  A global name is looked up in the names the module binds; the lookup of
  a name that is not bound raises \<open>NameError\<close>.  \<open>downlod.py\<close> binds \<open>send_file\<close> and
  \<open>abort\<close> (its import from \<open>flask\<close>), \<open>os\<close>, \<open>app\<close> and \<open>download_file\<close>, and nothing
  else.  \<open>file_arg\<close> is the value of the query parameter \<open>file\<close>, \<open>None\<close> when it is absent.
  \<open>abort(c)\<close> ends the request with status \<open>c\<close>; \<open>send_file\<close> streams a regular file and
  raises on a directory.  An exception that escapes is answered with status 500.
\<close>

datatype response = Abort nat | SendFile string | Raise string

definition downlod_globals :: "string set" where
  "downlod_globals = {''send_file'', ''abort'', ''os'', ''app'', ''download_file''}"

definition download_file :: "string set \<Rightarrow> 'p node \<Rightarrow> string \<Rightarrow> string option \<Rightarrow> response" where
  "download_file module_names fs quotations_dir file_arg =
     (if ''request'' \<notin> module_names then Raise ''NameError''
      else case file_arg of
        None \<Rightarrow> Abort 400
      | Some file_path \<Rightarrow>
          if file_path = [] then Abort 400
          else let full_path = path_join quotations_dir file_path in
            if \<not> path_exists fs full_path then Abort 404
            else if isdir fs full_path then Raise ''IsADirectoryError''
            else SendFile full_path)"

section \<open>Directory search\<close>

text \<open>
  \<open>get_quotation_files(search_quotation_no, search_rep)\<close>, with \<open>base_dir\<close> the configured
  \<open>QUOTATIONS_DIR\<close> and \<open>lower\<close> the function \<open>str.lower\<close>.  \<open>os.listdir\<close> raises on a path
  that is no directory; a call that raises makes the whole search raise, which is the
  result \<open>None\<close>.  The function returns a
  dictionary with either the key \<open>error\<close> (\<open>Inl\<close>) or the key \<open>results\<close> (\<open>Inr\<close>).
\<close>

definition listdir :: "'p node \<Rightarrow> string \<Rightarrow> string list option" where
  "listdir fs p = (case resolve fs p of Some (Dir es) \<Rightarrow> Some (map fst es) | _ \<Rightarrow> None)"

record quotation_file =
  filename :: string
  url :: string

fun collect ::
  "(string \<Rightarrow> string) \<Rightarrow> 'p node \<Rightarrow> string \<Rightarrow> string \<Rightarrow> string list
     \<Rightarrow> quotation_file list option" where
  "collect lower fs base_dir search_quotation_no [] = Some []"
| "collect lower fs base_dir search_quotation_no (dir_name # dirs) =
     (let dir_path = path_join base_dir dir_name in
      case listdir fs dir_path of
        None \<Rightarrow> None
      | Some names \<Rightarrow>
          (let files = filter (\<lambda>f. endswith f ''.pdf''
                                \<and> py_in (lower search_quotation_no) (lower f)) names;
               found = map (\<lambda>f. \<lparr>filename = f,
                                 url = path_join (path_join ''quotations'' dir_name) f\<rparr>) files
           in case collect lower fs base_dir search_quotation_no dirs of
                None \<Rightarrow> None
              | Some results \<Rightarrow> Some (found @ results)))"

definition no_quotations_message :: "string \<Rightarrow> string \<Rightarrow> string" where
  "no_quotations_message search_quotation_no search_rep =
     ''No quotations found''
     @ (if search_rep \<noteq> [] \<or> search_quotation_no \<noteq> [] then
          '' matching: ''
          @ (if search_rep \<noteq> [] then ''Representative: '' @ search_rep else [])
          @ (if search_rep \<noteq> [] \<and> search_quotation_no \<noteq> [] then '' and '' else [])
          @ (if search_quotation_no \<noteq> [] then ''Quotation No: '' @ search_quotation_no else [])
        else [])"

definition get_quotation_files ::
  "(string \<Rightarrow> string) \<Rightarrow> 'p node \<Rightarrow> string \<Rightarrow> string \<Rightarrow> string
     \<Rightarrow> (string + quotation_file list) option" where
  "get_quotation_files lower fs base_dir search_quotation_no search_rep =
     (if \<not> isdir fs base_dir then Some (Inl ''No quotations directory found.'')
      else case listdir fs base_dir of
        None \<Rightarrow> None
      | Some names \<Rightarrow>
          (let dirs = filter (\<lambda>d. isdir fs (path_join base_dir d)
                               \<and> (search_rep = [] \<or> py_in (lower search_rep) (lower d))) names
           in if dirs = [] then
                Some (Inl (''No representative directories found''
                           @ (if search_rep \<noteq> [] then '' matching: Representative: '' @ search_rep
                              else [])))
              else case collect lower fs base_dir search_quotation_no dirs of
                None \<Rightarrow> None
              | Some results \<Rightarrow>
                  if results = [] then Some (Inl (no_quotations_message search_quotation_no search_rep))
                  else Some (Inr results)))"




section \<open>Writing to the filesystem\<close>

text \<open>
  \<open>update_at fs t n\<close> puts the node \<open>n\<close> under the name \<open>last t\<close> into the directory at
  \<open>butlast t\<close>, replacing an entry of that name; it fails when that directory does not exist.
\<close>

fun update_at :: "'p node \<Rightarrow> string list \<Rightarrow> 'p node \<Rightarrow> 'p node option" where
  "update_at (File _) t n = None"
| "update_at (Dir es) [] n = None"
| "update_at (Dir es) [c] n = Some (Dir (AList.update c n es))"
| "update_at (Dir es) (c # c' # cs) n =
     (case map_of es c of
        None \<Rightarrow> None
      | Some m \<Rightarrow>
          (case update_at m (c' # cs) n of
             None \<Rightarrow> None
           | Some m' \<Rightarrow> Some (Dir (AList.update c m' es))))"

text \<open>
  \<open>os.makedirs(path)\<close> creates the directory \<open>path\<close> and every missing directory on the
  way to it.  It raises \<open>OSError\<close> (the result \<open>None\<close>) when the path exists already or
  when a component on the way is a regular file.
\<close>

fun mkdirs :: "'p node \<Rightarrow> string list \<Rightarrow> string list \<Rightarrow> 'p node option" where
  "mkdirs fs cur [] = Some fs"
| "mkdirs fs cur (c # cs) =
     (if \<not> is_dir_node (node_at fs cur) then None
      else if c = [] \<or> c = ''.'' then mkdirs fs cur cs
      else if c = ''..'' then mkdirs fs (butlast cur) cs
      else (case node_at fs (cur @ [c]) of
              None \<Rightarrow>
                (case update_at fs (cur @ [c]) (Dir []) of
                   None \<Rightarrow> None
                 | Some fs' \<Rightarrow> mkdirs fs' (cur @ [c]) cs)
            | Some (Dir _) \<Rightarrow> mkdirs fs (cur @ [c]) cs
            | Some (File _) \<Rightarrow> None))"

definition makedirs :: "'p node \<Rightarrow> string \<Rightarrow> 'p node option" where
  "makedirs fs path =
     (if path = [] \<or> path_exists fs path then None else mkdirs fs [] (components path))"

text \<open>
  \<open>open(path, 'wb')\<close> followed by writing \<open>content\<close>: the file is created in, or replaced
  in, an existing directory; opening fails when that directory is missing or when the
  path names a directory.
\<close>

definition write_file :: "'p node \<Rightarrow> string \<Rightarrow> 'p list option \<Rightarrow> 'p node option" where
  "write_file fs path content =
     (if path = [] then None
      else let cs = components path; name = last cs in
        if name = [] \<or> name = ''.'' \<or> name = ''..'' then None
        else case walk fs [] (butlast cs) of
          None \<Rightarrow> None
        | Some p \<Rightarrow>
            if \<not> is_dir_node (node_at fs p) then None
            else if is_dir_node (node_at fs (p @ [name])) then None
            else update_at fs (p @ [name]) (File content))"

text \<open>\<open>PdfReader(path).pages\<close>: the pages of a readable PDF file.\<close>

definition read_pdf :: "'p node \<Rightarrow> string \<Rightarrow> 'p list option" where
  "read_pdf fs path = (case resolve fs path of Some (File (Some pages)) \<Rightarrow> Some pages | _ \<Rightarrow> None)"

section \<open>Quotations and the libraries\<close>

record 'f item =
  quantity :: 'f
  rate :: 'f
  amount :: 'f
  vat :: 'f

record 'f quotation_data =
  quotation_no :: string
  date :: string
  client_name :: string
  rep :: string
  quote_items :: "'f item list"
  subtotal :: 'f
  tax :: 'f
  total :: 'f

text \<open>
  What the program takes from Python and its libraries is a parameter of the model; no
  property of these operations is assumed.  \<open>'f\<close> is the type of Python numbers and \<open>'p\<close>
  the type of PDF pages.
  \<^item> \<open>py_float s\<close> is \<open>float(s)\<close>, \<open>None\<close> when it raises \<open>ValueError\<close>; \<open>py_bool x\<close> is the
    truth value of the number \<open>x\<close>; \<open>f_add\<close>, \<open>f_mul\<close>, \<open>f_div\<close> are \<open>+\<close>, \<open>*\<close>, \<open>/\<close> and
    \<open>f_int k\<close> is the integer literal \<open>k\<close>.
  \<^item> \<open>draw q\<close> is the page that the canvas calls of \<open>create_quotation_pdf\<close> draw for the
    quotation \<open>q\<close> (one \<open>showPage\<close>, so the overlay has exactly this page);
    \<open>merge_page p o\<close> is the page \<open>p\<close> after \<open>p.merge_page(o)\<close>.
  \<^item> \<open>w_ok p\<close> tells whether the process may write to the existing path \<open>p\<close>;
    \<open>today\<close> is \<open>datetime.now().strftime('%Y-%m-%d')\<close>; \<open>py_lower s\<close> is \<open>s.lower()\<close>.
\<close>

record ('f, 'p) library =
  py_float :: "string \<Rightarrow> 'f option"
  py_bool :: "'f \<Rightarrow> bool"
  f_add :: "'f \<Rightarrow> 'f \<Rightarrow> 'f"
  f_mul :: "'f \<Rightarrow> 'f \<Rightarrow> 'f"
  f_div :: "'f \<Rightarrow> 'f \<Rightarrow> 'f"
  f_int :: "int \<Rightarrow> 'f"
  draw :: "'f quotation_data \<Rightarrow> 'p"
  merge_page :: "'p \<Rightarrow> 'p \<Rightarrow> 'p"
  w_ok :: "string \<Rightarrow> bool"
  today :: string
  py_lower :: "string \<Rightarrow> string"

record config =
  quotations_dir :: string
  template_dir :: string

section \<open>PDF composer\<close>

text \<open>
  The merge loop of \<open>create_quotation_pdf\<close>: for every page number of the template, the
  template page, merged with the overlay page of that number when there is one.
\<close>

definition merge_pages :: "('p \<Rightarrow> 'p \<Rightarrow> 'p) \<Rightarrow> 'p list \<Rightarrow> 'p list \<Rightarrow> 'p list" where
  "merge_pages merge template_pages overlay_pages =
     map (\<lambda>page_num.
            let page = template_pages ! page_num in
            if page_num < length overlay_pages then merge page (overlay_pages ! page_num)
            else page)
         [0..<length template_pages]"

text \<open>
  \<open>create_quotation_pdf\<close> returns \<open>True\<close>, here \<open>Inr\<close> with the filesystem after the write, or
  the text of the exception it caught, here \<open>Inl\<close> with the step that raised.
\<close>

datatype pdf_failure = TemplateUnreadable | OutputUnwritable

definition create_quotation_pdf ::
  "('f, 'p) library \<Rightarrow> 'p node \<Rightarrow> string \<Rightarrow> 'f quotation_data \<Rightarrow> string \<Rightarrow> pdf_failure + 'p node" where
  "create_quotation_pdf lib fs output_file quotation_data template_path =
     (case read_pdf fs template_path of
        None \<Rightarrow> Inl TemplateUnreadable
      | Some template_pages \<Rightarrow>
          (let overlay_pages = [draw lib quotation_data];
               output_pages = merge_pages (merge_page lib) template_pages overlay_pages
           in case write_file fs output_file (Some output_pages) of
                None \<Rightarrow> Inl OutputUnwritable
              | Some fs' \<Rightarrow> Inr fs'))"

section \<open>Request handler\<close>

text \<open>
  The entries of the handler's \<open>errors\<close> list, one constructor per message:
  \<^item> \<open>FailedToCreateDirectory d\<close>: \<open>Failed to create directory: d\<close>
  \<^item> \<open>InvalidItemData\<close>: \<open>Invalid item data submitted.\<close>
  \<^item> \<open>TooManyItems n\<close>: \<open>Too many items. Maximum n items allowed.\<close>
  \<^item> \<open>IncompleteItem r\<close>: \<open>Incomplete item data at row r. Quantity, rate, amount, and VAT
    are required.\<close>
  \<^item> \<open>ClientNameRequired\<close>, \<open>RepresentativeRequired\<close>: \<open>Client name is required.\<close>,
    \<open>Representative name is required.\<close>
  \<^item> \<open>NoCompleteItem\<close>: \<open>At least one complete item is required.\<close>
  \<^item> \<open>TemplateNotFound p\<close>: \<open>Quotation template not found: p\<close>
  \<^item> \<open>NotWritable d\<close>: \<open>Output directory is not writable: d\<close>
  \<^item> \<open>PdfGenerationFailed e\<close>: \<open>PDF generation failed: e\<close>
\<close>

datatype error =
    FailedToCreateDirectory string
  | InvalidItemData
  | TooManyItems nat
  | IncompleteItem nat
  | ClientNameRequired
  | RepresentativeRequired
  | NoCompleteItem
  | TemplateNotFound string
  | NotWritable string
  | PdfGenerationFailed pdf_failure

text \<open>\<open>re.sub(r'[^A-Za-z0-9\-]', '_', s)\<close>\<close>

definition sanitize :: "string \<Rightarrow> string" where
  "sanitize s =
     map (\<lambda>c. if c \<in> set ''ABCDEFGHIJKLMNOPQRSTUVWXYZabcdefghijklmnopqrstuvwxyz0123456789-''
               then c else CHR ''_'') s"

text \<open>The form fields of a \<open>POST\<close>; a field that is absent reads as the empty string.\<close>

record form =
  form_search_quotation_no :: string
  form_search_rep :: string
  form_client_name :: string
  form_rep :: string
  quantities :: "string list"
  rates :: "string list"
  amounts :: "string list"
  vats :: "string list"

datatype request = GET string string | POST form

text \<open>
  The body of the loop over the item rows.  The \<open>try\<close> block parses the four fields of
  row \<open>i\<close>; a \<open>ValueError\<close> records the row error and continues with the next row.
\<close>

definition parse_row ::
  "('f, 'p) library \<Rightarrow> form \<Rightarrow> nat \<Rightarrow> ('f \<times> 'f \<times> 'f \<times> 'f) option" where
  "parse_row lib fm i =
     (case py_float lib (quantities fm ! i) of
        None \<Rightarrow> None
      | Some quantity' \<Rightarrow>
     (case py_float lib (rates fm ! i) of
        None \<Rightarrow> None
      | Some rate' \<Rightarrow>
     (case py_float lib (amounts fm ! i) of
        None \<Rightarrow> None
      | Some amount' \<Rightarrow>
     (case (if vats fm ! i \<noteq> [] then py_float lib (vats fm ! i) else Some (f_int lib 0)) of
        None \<Rightarrow> None
      | Some vat' \<Rightarrow> Some (quantity', rate', amount', vat')))))"

definition process_row ::
  "('f, 'p) library \<Rightarrow> form \<Rightarrow> error list \<times> 'f quotation_data \<Rightarrow> nat
     \<Rightarrow> error list \<times> 'f quotation_data" where
  "process_row lib fm state i =
     (case state of (errors, qd) \<Rightarrow>
        (case parse_row lib fm i of
           None \<Rightarrow> (errors @ [IncompleteItem (i + 1)], qd)
         | Some (quantity', rate', amount', vat') \<Rightarrow>
             if py_bool lib quantity' \<and> py_bool lib rate' \<and> py_bool lib amount' then
               (errors,
                qd\<lparr>quote_items := quote_items qd
                        @ [\<lparr>quantity = quantity', rate = rate', amount = amount', vat = vat'\<rparr>],
                   subtotal := f_add lib (subtotal qd) amount',
                   tax := f_add lib (tax qd) (f_mul lib amount' (f_div lib vat' (f_int lib 100)))\<rparr>)
             else (errors @ [IncompleteItem (i + 1)], qd)))"

definition process_items ::
  "('f, 'p) library \<Rightarrow> form \<Rightarrow> error list \<times> 'f quotation_data \<Rightarrow> error list \<times> 'f quotation_data" where
  "process_items lib fm state =
     (case state of (errors, qd) \<Rightarrow>
        if \<not> (length (quantities fm) = length (rates fm) \<and> length (rates fm) = length (amounts fm)
               \<and> length (amounts fm) = length (vats fm))
        then (errors @ [InvalidItemData], qd)
        else if length (quantities fm) > 6 * 10 then (errors @ [TooManyItems (6 * 10)], qd)
        else foldl (process_row lib fm) (errors, qd) [0..<length (quantities fm)])"

text \<open>
  What the handler hands back: the error list, the quotation data, the \<open>success\<close> flag
  (set exactly when the handler answers with the redirect), the listing of the search and
  its errors, and the filesystem it leaves.
\<close>

record ('f, 'p) outcome =
  errors :: "error list"
  data :: "'f quotation_data"
  success :: bool
  quotation_files :: "quotation_file list"
  search_errors :: "string list"
  storage :: "'p node"

text \<open>
  The output directory is created when it does not exist; a failure is recorded and the
  handler goes on.
\<close>

definition ensure_output_dir :: "'p node \<Rightarrow> string \<Rightarrow> error list \<times> 'p node" where
  "ensure_output_dir fs output_dir =
     (if \<not> path_exists fs output_dir then
        (case makedirs fs output_dir of
           None \<Rightarrow> ([FailedToCreateDirectory output_dir], fs)
         | Some fs' \<Rightarrow> ([], fs'))
      else ([], fs))"

text \<open>
  The submission branch of \<open>index\<close> (\<open>POST\<close> without search fields).  It does not return
  when the identifier generator does not.
\<close>

definition submission ::
  "('f, 'p) library \<Rightarrow> config \<Rightarrow> (nat \<Rightarrow> nat) \<Rightarrow> 'p node \<Rightarrow> form
     \<Rightarrow> quotation_file list \<Rightarrow> string list \<Rightarrow> 'f quotation_data \<Rightarrow> ('f, 'p) outcome option" where
  "submission lib cfg draws fs fm files serrs qd0 =
     (let qd1 = qd0\<lparr>client_name := form_client_name fm, rep := form_rep fm\<rparr>;
          safe_rep_name = sanitize (rep qd1);
          safe_client_name = sanitize (client_name qd1);
          output_dir = path_join (quotations_dir cfg) safe_rep_name;
          created = ensure_output_dir fs output_dir;
          errors1 = fst created;
          fs1 = snd created
      in case generate_quotation_number fs1 output_dir draws of
        None \<Rightarrow> None
      | Some number \<Rightarrow>
          (let qd2 = qd1\<lparr>quotation_no := number, quote_items := []\<rparr>;
               processed = process_items lib fm (errors1, qd2);
               qd3 = snd processed;
               qd4 = qd3\<lparr>total := f_add lib (subtotal qd3) (tax qd3)\<rparr>;
               errors2 = fst processed
                 @ (if client_name qd4 = [] then [ClientNameRequired] else [])
                 @ (if rep qd4 = [] then [RepresentativeRequired] else [])
                 @ (if quote_items qd4 = [] then [NoCompleteItem] else []);
               rendered = (\<lambda>es. Some \<lparr>errors = es, data = qd4, success = False,
                                        quotation_files = files, search_errors = serrs,
                                        storage = fs1\<rparr>)
           in if errors2 = [] then
                (let output_file = output_file_name output_dir (quotation_no qd4) safe_client_name;
                     template_path = path_join (template_dir cfg) ''QUOTATION.pdf''
                 in if \<not> path_exists fs1 template_path then
                      rendered (errors2 @ [TemplateNotFound template_path])
                    else if \<not> (path_exists fs1 output_dir \<and> w_ok lib output_dir) then
                      rendered (errors2 @ [NotWritable output_dir])
                    else (case create_quotation_pdf lib fs1 output_file qd4 template_path of
                            Inl e \<Rightarrow> rendered (errors2 @ [PdfGenerationFailed e])
                          | Inr fs2 \<Rightarrow>
                              Some \<lparr>errors = errors2, data = qd4, success = True,
                                    quotation_files = files, search_errors = serrs,
                                    storage = fs2\<rparr>))
              else rendered errors2))"

text \<open>
  \<open>index\<close>: the search listing first, then the submission branch for a \<open>POST\<close> whose search
  fields are empty.  An exception that escapes the handler is the result \<open>None\<close>.  (After a
  successful composition the handler lists the files once more and answers with a redirect,
  which shows none of it; the outcome keeps the first listing.)
\<close>

definition index ::
  "('f, 'p) library \<Rightarrow> config \<Rightarrow> (nat \<Rightarrow> nat) \<Rightarrow> 'p node \<Rightarrow> request
     \<Rightarrow> ('f, 'p) outcome option" where
  "index lib cfg draws fs req =
     (let qd0 = \<lparr>quotation_no = [], date = today lib, client_name = [], rep = [],
                  quote_items = [], subtotal = f_int lib 0, tax = f_int lib 0,
                  total = f_int lib 0\<rparr>;
          search_quotation_no = (case req of GET s r \<Rightarrow> s | POST fm \<Rightarrow> form_search_quotation_no fm);
          search_rep = (case req of GET s r \<Rightarrow> r | POST fm \<Rightarrow> form_search_rep fm)
      in case (if search_quotation_no \<noteq> [] \<or> search_rep \<noteq> []
               then get_quotation_files (py_lower lib) fs (quotations_dir cfg)
                      search_quotation_no search_rep
               else get_quotation_files (py_lower lib) fs (quotations_dir cfg) [] []) of
        None \<Rightarrow> None
      | Some listing \<Rightarrow>
          (let files = (case listing of Inl e \<Rightarrow> [] | Inr results \<Rightarrow> results);
               serrs = (case listing of Inl e \<Rightarrow> [e] | Inr results \<Rightarrow> [])
           in case req of
                GET s r \<Rightarrow>
                  Some \<lparr>errors = [], data = qd0, success = False, quotation_files = files,
                        search_errors = serrs, storage = fs\<rparr>
              | POST fm \<Rightarrow>
                  if \<not> (form_search_quotation_no fm \<noteq> [] \<or> form_search_rep fm \<noteq> [])
                  then submission lib cfg draws fs fm files serrs qd0
                  else Some \<lparr>errors = [], data = qd0, success = False, quotation_files = files,
                             search_errors = serrs, storage = fs\<rparr>))"

section \<open>Auxiliary notions for the proofs\<close>

text \<open>
  \<open>row_result lib fm i\<close> is the item that row \<open>i\<close> of the form contributes, \<open>None\<close> when the
  row is rejected; \<open>initial_data lib\<close> is the quotation data \<open>index\<close> starts from and
  \<open>submitted_dir cfg fm\<close> the output directory of a submission.
\<close>

definition row_result :: "('f, 'p) library \<Rightarrow> form \<Rightarrow> nat \<Rightarrow> 'f item option" where
  "row_result lib fm i =
     (case parse_row lib fm i of
        None \<Rightarrow> None
      | Some (q, r, a, v) \<Rightarrow>
          if py_bool lib q \<and> py_bool lib r \<and> py_bool lib a
          then Some \<lparr>quantity = q, rate = r, amount = a, vat = v\<rparr> else None)"

definition add_item :: "('f, 'p) library \<Rightarrow> 'f quotation_data \<Rightarrow> 'f item \<Rightarrow> 'f quotation_data" where
  "add_item lib qd it =
     qd\<lparr>quote_items := quote_items qd @ [it],
        subtotal := f_add lib (subtotal qd) (amount it),
        tax := f_add lib (tax qd) (f_mul lib (amount it) (f_div lib (vat it) (f_int lib 100)))\<rparr>"

definition initial_data :: "('f, 'p) library \<Rightarrow> 'f quotation_data" where
  "initial_data lib =
     \<lparr>quotation_no = [], date = today lib, client_name = [], rep = [],
      quote_items = [], subtotal = f_int lib 0, tax = f_int lib 0, total = f_int lib 0\<rparr>"

definition submitted_dir :: "config \<Rightarrow> form \<Rightarrow> string" where
  "submitted_dir cfg fm = path_join (quotations_dir cfg) (sanitize (form_rep fm))"

definition totals_ok :: "('f, 'p) library \<Rightarrow> 'f quotation_data \<Rightarrow> bool" where
  "totals_ok lib qd =
     (subtotal qd = foldl (f_add lib) (f_int lib 0) (map amount (quote_items qd))
      \<and> tax qd = foldl (f_add lib) (f_int lib 0)
           (map (\<lambda>it. f_mul lib (amount it) (f_div lib (vat it) (f_int lib 100))) (quote_items qd)))"

text \<open>
  \<open>validated\<close> is the error list and the quotation data of a submission when composition
  is about to be decided, for the quotation number \<open>number\<close>.
\<close>

definition validated ::
  "('f, 'p) library \<Rightarrow> config \<Rightarrow> 'p node \<Rightarrow> form \<Rightarrow> 'f quotation_data \<Rightarrow> string
     \<Rightarrow> error list \<times> 'f quotation_data" where
  "validated lib cfg fs fm qd0 number =
     (let processed = process_items lib fm
            (fst (ensure_output_dir fs (submitted_dir cfg fm)),
             qd0\<lparr>client_name := form_client_name fm, rep := form_rep fm,
                 quotation_no := number, quote_items := []\<rparr>);
          qd3 = snd processed
      in (fst processed
            @ (if form_client_name fm = [] then [ClientNameRequired] else [])
            @ (if form_rep fm = [] then [RepresentativeRequired] else [])
            @ (if quote_items qd3 = [] then [NoCompleteItem] else []),
          qd3\<lparr>total := f_add lib (subtotal qd3) (tax qd3)\<rparr>))"

text \<open>
  \<open>files_of fs\<close> is the set of the regular files of the tree, each with its place and its
  content; \<open>rejecting lib s\<close> holds for a field value that does not parse or parses to a
  number that is not true (zero).
\<close>

definition files_of :: "'p node \<Rightarrow> (string list \<times> 'p list option) set" where
  "files_of fs = {(q, c). node_at fs q = Some (File c)}"

definition rejecting :: "('f, 'p) library \<Rightarrow> string \<Rightarrow> bool" where
  "rejecting lib s = (case py_float lib s of None \<Rightarrow> True | Some x \<Rightarrow> \<not> py_bool lib x)"

text \<open>
  \<open>num_val\<close> reads a decimal numeral back; \<open>entry_names fs d\<close> is the set of entry names of
  the directory that the path \<open>d\<close> denotes (empty when \<open>d\<close> denotes no directory).
\<close>

definition digit_val :: "char \<Rightarrow> nat" where
  "digit_val c = of_char c - 48"

definition num_val :: "string \<Rightarrow> nat" where
  "num_val s = foldl (\<lambda>a c. 10 * a + digit_val c) 0 s"

definition parent_components :: "string \<Rightarrow> string list" where
  "parent_components d =
     (if d = [] then [] else if last d = CHR ''/'' then components (butlast d) else components d)"

definition entry_names :: "'p node \<Rightarrow> string \<Rightarrow> string set" where
  "entry_names fs d =
     (case walk fs [] (parent_components d) of
        None \<Rightarrow> {}
      | Some p \<Rightarrow> (case node_at fs p of Some (Dir es) \<Rightarrow> fst ` set es | _ \<Rightarrow> {}))"

section \<open>Example inputs\<close>

text \<open>
  \<open>ascii_lower\<close> is \<open>str.lower\<close> on strings of ASCII characters.  \<open>acme_fs\<close> is a storage
  root with the representatives \<open>Acme Corp\<close>, \<open>Other\<close> and \<open>acme-west\<close>; \<open>pdf_dir_fs\<close> is one
  in which a representative's directory holds a directory named \<open>old.pdf\<close>.
\<close>

definition ascii_lower_char :: "char \<Rightarrow> char" where
  "ascii_lower_char c =
     (if 65 \<le> (of_char c :: nat) \<and> (of_char c :: nat) \<le> 90
      then char_of ((of_char c :: nat) + 32) else c)"

definition ascii_lower :: "string \<Rightarrow> string" where
  "ascii_lower s = map ascii_lower_char s"



text \<open>
  An instance of the library for the examples: numbers are rationals, \<open>float\<close> reads decimal
  integer numerals with an optional minus sign (the examples submit nothing else), a
  number is true when it is not zero, a page is the list of the texts on it.
\<close>

definition int_numeral :: "string \<Rightarrow> rat option" where
  "int_numeral s =
     (let ds = (if s \<noteq> [] \<and> hd s = CHR ''-'' then tl s else s) in
      if ds = [] \<or> \<not> list_all (\<lambda>c. c \<in> set ''0123456789'') ds then None
      else Some (if s \<noteq> [] \<and> hd s = CHR ''-'' then - of_nat (num_val ds) else of_nat (num_val ds)))"

definition example_lib :: "(rat, string list) library" where
  "example_lib =
     \<lparr>py_float = int_numeral, py_bool = (\<lambda>x. x \<noteq> 0),
      f_add = (+), f_mul = (*), f_div = (/), f_int = of_int,
      draw = (\<lambda>q. [quotation_no q, client_name q]), merge_page = (@),
      w_ok = (\<lambda>p. True), today = ''2024-01-01'', py_lower = ascii_lower\<rparr>"

definition example_cfg :: config where
  "example_cfg = \<lparr>quotations_dir = ''/app/quotations'', template_dir = ''/app/files''\<rparr>"

definition example_fs :: "string list node" where
  "example_fs = Dir [(''app'', Dir [
      (''files'', Dir [(''QUOTATION.pdf'', File (Some [[''letterhead''], [''terms'']]))]),
      (''quotations'', Dir [])])]"

definition example_form :: form where
  "example_form = \<lparr>form_search_quotation_no = [], form_search_rep = [],
      form_client_name = ''Bob Ltd'', form_rep = ''Acme'',
      quantities = [''2'', ''0'', ''3''], rates = [''10'', ''5'', ''7''],
      amounts = [''20'', ''5'', ''21''], vats = [''16'', ''16'', '''']\<rparr>"

definition example_draws :: "nat \<Rightarrow> nat" where
  "example_draws k = 42"

definition acme_dir_fs :: "string list node" where
  "acme_dir_fs = Dir [(''app'', Dir [
      (''files'', Dir [(''QUOTATION.pdf'', File (Some [[''letterhead''], [''terms'']]))]),
      (''quotations'', Dir [(''Acme'', Dir [])])])]"

definition negative_form :: form where
  "negative_form = \<lparr>form_search_quotation_no = [], form_search_rep = [],
      form_client_name = ''Bob Ltd'', form_rep = ''Acme'',
      quantities = [''-1''], rates = [''5''], amounts = [''-5''], vats = ['''']\<rparr>"

definition mismatched_form :: form where
  "mismatched_form = \<lparr>form_search_quotation_no = [], form_search_rep = [],
      form_client_name = ''Bob Ltd'', form_rep = ''Acme'',
      quantities = [''2'', ''1'', ''3''], rates = [''10'', ''5''],
      amounts = [''20'', ''5'', ''21''], vats = [''16'', ''16'', '''']\<rparr>"

definition many_rows_form :: form where
  "many_rows_form = \<lparr>form_search_quotation_no = [], form_search_rep = [],
      form_client_name = ''Bob Ltd'', form_rep = ''Acme'',
      quantities = replicate 61 ''0'', rates = replicate 61 ''5'',
      amounts = replicate 61 ''5'', vats = replicate 61 ''16''\<rparr>"

definition example_quotation :: "rat quotation_data" where
  "example_quotation =
     \<lparr>quotation_no = ''Q-042'', date = ''2024-01-01'', client_name = ''Bob Ltd'', rep = ''Acme'',
      quote_items = [\<lparr>quantity = 2, rate = 10, amount = 20, vat = 16\<rparr>],
      subtotal = 20, tax = 16 / 5, total = 116 / 5\<rparr>"

definition stored_fs :: "string list node" where
  "stored_fs = Dir [(''app'', Dir [
      (''files'', Dir [(''QUOTATION.pdf'', File (Some [[''letterhead''], [''terms'']]))]),
      (''quotations'', Dir [(''Acme'', Dir [(''Q-042_Bob_Ltd.pdf'',
          File (Some [[''letterhead'', ''Q-042'', ''Bob Ltd''], [''terms'']]))])])])]"

section \<open>Decimal numerals and path components\<close>

lemma digit_val_digit_char: "d < 10 \<Longrightarrow> digit_val (digit_char d) = d"
proof -
  assume "d < 10"
  then have "d \<in> {0, 1, 2, 3, 4, 5, 6, 7, 8, 9}" by auto
  then show ?thesis by (auto simp: digit_val_def digit_char_def)
qed

lemma num_val_snoc: "num_val (s @ [c]) = 10 * num_val s + digit_val c"
  by (simp add: num_val_def)

lemma num_val_str: "num_val (str n) = n"
proof (induction n rule: str.induct)
  case (1 n)
  show ?case
  proof (cases "n < 10")
    case True
    then show ?thesis
      by (subst str.simps) (simp add: num_val_def digit_val_digit_char)
  next
    case False
    with 1 have "num_val (str (n div 10)) = n div 10" by simp
    with False show ?thesis
      by (subst str.simps) (simp add: num_val_snoc digit_val_digit_char)
  qed
qed

lemma num_val_zeros: "num_val (replicate k CHR ''0'' @ s) = num_val s"
  by (induction k) (simp_all add: num_val_def digit_val_def)

lemma candidate_number: "num_val (drop 2 (candidate n)) = n"
  by (simp add: candidate_def zfill_def num_val_zeros num_val_str)

lemma inj_candidate: "inj candidate"
  by (rule inj_on_inverseI [where g = "\<lambda>s. num_val (drop 2 s)"]) (simp add: candidate_number)

lemma digit_char_not_slash: "d < 10 \<Longrightarrow> digit_char d \<noteq> CHR ''/''"
proof -
  assume "d < 10"
  then have "d \<in> {0, 1, 2, 3, 4, 5, 6, 7, 8, 9}" by auto
  then show ?thesis by (auto simp: digit_char_def)
qed

lemma str_no_slash: "CHR ''/'' \<notin> set (str n)"
proof (induction n rule: str.induct)
  case (1 n)
  show ?case
  proof (cases "n < 10")
    case True
    then show ?thesis
      using digit_char_not_slash [of n] by (subst str.simps) auto
  next
    case False
    with 1 have "CHR ''/'' \<notin> set (str (n div 10))" by simp
    with False show ?thesis
      using digit_char_not_slash [of "n mod 10"] by (subst str.simps) auto
  qed
qed

lemma candidate_no_slash: "CHR ''/'' \<notin> set (candidate n)"
  by (auto simp: candidate_def zfill_def str_no_slash)

lemma components_nonempty: "components s \<noteq> []"
  by (induction s) (auto split: list.splits)

lemma components_plain: "CHR ''/'' \<notin> set x \<Longrightarrow> components x = [x]"
  by (induction x) (auto split: list.splits)

lemma components_slash: "components (a @ CHR ''/'' # b) = components a @ components b"
  by (induction a) (auto split: list.splits simp: components_nonempty)

lemma walk_append:
  "walk fs cur (cs @ ds) = (case walk fs cur cs of None \<Rightarrow> None | Some p \<Rightarrow> walk fs p ds)"
  by (induction cs arbitrary: cur) auto

lemma node_at_append:
  "node_at n (p @ q) = (case node_at n p of None \<Rightarrow> None | Some m \<Rightarrow> node_at m q)"
  by (induction n p rule: node_at.induct) (auto split: option.splits)

lemma components_join:
  assumes "x \<noteq> []" "CHR ''/'' \<notin> set x"
  shows "components (path_join d x) = parent_components d @ [x]"
proof -
  from assms have hd: "hd x \<noteq> CHR ''/''" by (cases x) auto
  show ?thesis
  proof (cases "d = []")
    case True
    with assms hd show ?thesis
      by (simp add: path_join_def parent_components_def components_plain)
  next
    case False
    show ?thesis
    proof (cases "last d = CHR ''/''")
      case True
      with False have d: "d = butlast d @ [CHR ''/'']"
        by (metis append_butlast_last_id)
      have "path_join d x = butlast d @ CHR ''/'' # x"
        using assms hd False True d by (simp add: path_join_def)
      then show ?thesis
        using False True assms by (simp add: components_slash parent_components_def components_plain)
    next
      case nsl: False
      with False assms hd show ?thesis
        by (simp add: path_join_def parent_components_def components_slash components_plain)
    qed
  qed
qed

lemma exists_join_entry:
  assumes "x \<noteq> []" "CHR ''/'' \<notin> set x" "x \<noteq> ''.''" "x \<noteq> ''..''"
    and "path_exists fs (path_join d x)"
  shows "x \<in> entry_names fs d"
proof -
  from assms(1) have ne: "path_join d x \<noteq> []" by (auto simp: path_join_def)
  from assms(5) ne obtain q where q: "walk fs [] (parent_components d @ [x]) = Some q"
    and nq: "node_at fs q \<noteq> None"
    by (auto simp: path_exists_def resolve_def components_join [OF assms(1,2)] split: option.splits)
  from q obtain p where p: "walk fs [] (parent_components d) = Some p" and px: "walk fs p [x] = Some q"
    by (auto simp: walk_append split: option.splits)
  from px assms obtain es where es: "node_at fs p = Some (Dir es)" and qq: "q = p @ [x]"
    by (cases "node_at fs p" rule: is_dir_node.cases) (auto split: if_splits)
  from nq qq es have "map_of es x \<noteq> None"
    by (auto simp: node_at_append split: option.splits)
  then have "x \<in> fst ` set es" by (simp add: map_of_eq_None_iff)
  with p es show ?thesis by (simp add: entry_names_def)
qed

lemma finite_entry_names: "finite (entry_names fs d)"
  by (auto simp: entry_names_def split: option.splits node.splits)

lemma finite_taken: "finite {n. path_exists fs (path_join d (candidate n @ ''.pdf''))}"
proof -
  let ?f = "\<lambda>n. candidate n @ ''.pdf''"
  have inj: "inj ?f" using inj_candidate by (auto simp: inj_def)
  have "{n. path_exists fs (path_join d (?f n))} \<subseteq> ?f -` entry_names fs d"
  proof
    fix n assume "n \<in> {n. path_exists fs (path_join d (?f n))}"
    then have ex: "path_exists fs (path_join d (?f n))" by simp
    have "?f n \<in> entry_names fs d"
    proof (rule exists_join_entry [OF _ _ _ _ ex])
      show "?f n \<noteq> []" by simp
      show "CHR ''/'' \<notin> set (?f n)" using candidate_no_slash by simp
      show "?f n \<noteq> ''.''" by (simp add: candidate_def)
      show "?f n \<noteq> ''..''" by (simp add: candidate_def)
    qed
    then show "n \<in> ?f -` entry_names fs d" by simp
  qed
  moreover have "finite (?f -` entry_names fs d)"
    using finite_entry_names inj by (rule finite_vimageI)
  ultimately show ?thesis by (rule finite_subset)
qed

section \<open>The collision loop of the identifier generator\<close>

lemma probe_returns:
  assumes free: "\<forall>n\<ge>B. \<not> path_exists fs (path_join d (candidate n @ ''.pdf''))"
  shows "\<exists>q. probe fs d draws counter qno = Some q \<and> \<not> path_exists fs (path_join d (q @ ''.pdf''))"
proof (induction "B - counter" arbitrary: counter qno)
  case 0
  show ?case
  proof (cases "path_exists fs (path_join d (qno @ ''.pdf''))")
    case False
    then show ?thesis by (subst probe.simps) simp
  next
    case True
    let ?c = "candidate (draws counter + counter * 10000)"
    from 0 have "B \<le> draws counter + counter * 10000" by simp
    with free have nf: "\<not> path_exists fs (path_join d (?c @ ''.pdf''))" by blast
    then have "probe fs d draws (counter + 1) ?c = Some ?c" by (subst probe.simps) simp
    with True have "probe fs d draws counter qno = Some ?c" by (subst probe.simps) simp
    with nf show ?thesis by blast
  qed
next
  case (Suc k)
  show ?case
  proof (cases "path_exists fs (path_join d (qno @ ''.pdf''))")
    case False
    then show ?thesis by (subst probe.simps) simp
  next
    case True
    let ?c = "candidate (draws counter + counter * 10000)"
    from Suc(2) have "k = B - (counter + 1)" by simp
    from Suc(1) [OF this, of ?c] obtain q where
      q: "probe fs d draws (counter + 1) ?c = Some q" "\<not> path_exists fs (path_join d (q @ ''.pdf''))"
      by blast
    from True q(1) have "probe fs d draws counter qno = Some q" by (subst probe.simps) simp
    with q(2) show ?thesis by blast
  qed
qed

lemma taken_bounded:
  "\<exists>B. \<forall>n\<ge>B. \<not> path_exists fs (path_join d (candidate n @ ''.pdf''))"
proof -
  let ?S = "{n. path_exists fs (path_join d (candidate n @ ''.pdf''))}"
  have "finite ?S" by (rule finite_taken)
  then obtain m where m: "\<forall>n\<in>?S. n \<le> m" using finite_nat_set_iff_bounded_le by blast
  have "\<forall>n\<ge>Suc m. \<not> path_exists fs (path_join d (candidate n @ ''.pdf''))"
  proof (intro allI impI notI)
    fix n assume "Suc m \<le> n" "path_exists fs (path_join d (candidate n @ ''.pdf''))"
    with m show False by auto
  qed
  then show ?thesis by blast
qed

lemma generate_quotation_number_returns:
  "\<exists>q. generate_quotation_number fs output_dir draws = Some q
       \<and> \<not> path_exists fs (path_join output_dir (q @ ''.pdf''))"
proof -
  obtain B where "\<forall>n\<ge>B. \<not> path_exists fs (path_join output_dir (candidate n @ ''.pdf''))"
    using taken_bounded by blast
  then show ?thesis
    unfolding generate_quotation_number_def by (rule probe_returns)
qed

text \<open>
  C8.  On every directory state the collision loop of \<open>generate_quotation_number\<close> ends:
  the generator returns a quotation number, whatever the random draws are, and no entry
  named \<open><quotation_no>.pdf\<close> exists in the output directory.  (A directory state is a
  finite tree, and the candidate of the \<open>k\<close>-th redraw is at least \<open>k * 10000\<close>.)
\<close>

theorem generate_quotation_number_terminates:
  "\<exists>q. generate_quotation_number fs output_dir draws = Some q
       \<and> \<not> path_exists fs (path_join output_dir (q @ ''.pdf''))"
  by (rule generate_quotation_number_returns)

text \<open>
  C1.  The probe looks for \<open><quotation_no>.pdf\<close>, while quotations are stored as
  \<open><quotation_no>_<client>.pdf\<close>.  In a directory that already holds \<open>Q-123_Bob.pdf\<close>, a
  first draw of 123 is returned unchanged: the generator hands out \<open>Q-123\<close> again, and the
  file the handler would write for client \<open>Bob\<close> is the one that already exists.
\<close>

theorem generated_number_already_stored:
  "generate_quotation_number
     (Dir [(''quotations'', Dir [(''Acme'', Dir [(''Q-123_Bob.pdf'', File None)])])] :: unit node)
     ''quotations/Acme'' (\<lambda>_. 123) = Some ''Q-123''
   \<and> path_exists
     (Dir [(''quotations'', Dir [(''Acme'', Dir [(''Q-123_Bob.pdf'', File None)])])] :: unit node)
     (output_file_name ''quotations/Acme'' ''Q-123'' ''Bob'')"
  unfolding generate_quotation_number_def
  apply (subst probe.simps)
  apply (simp add: candidate_def zfill_def str.simps digit_char_def path_exists_def
      resolve_def path_join_def output_file_name_def)
  done

section \<open>Download: every request raises\<close>

text \<open>
  C2.  The module never binds the name \<open>request\<close>, so \<open>download_file\<close> raises \<open>NameError\<close>
  on its first statement, whatever the request and the filesystem are: a request without
  the \<open>file\<close> parameter is not answered 400 and one that names a missing file is not
  answered 404; every request is answered 500 (and no file is ever served).
\<close>

theorem download_file_raises_name_error:
  "download_file downlod_globals fs storage_root file_arg = Raise ''NameError''"
  by (simp add: download_file_def downlod_globals_def)

section \<open>Directory search: the result is the set of matching files\<close>












section \<open>Writing keeps the rest of the tree\<close>

lemma node_at_update_at: "update_at fs t n = Some fs' \<Longrightarrow> node_at fs' t = Some n"
proof (induction fs t n arbitrary: fs' rule: update_at.induct)
  case (4 es c c' cs n)
  then obtain m m' where m: "map_of es c = Some m" "update_at m (c' # cs) n = Some m'"
    "fs' = Dir (AList.update c m' es)"
    by (auto split: option.splits)
  with 4(1) have "node_at m' (c' # cs) = Some n" by simp
  with m show ?case by (simp add: update_conv')
qed (auto simp: update_conv')

lemma is_dir_update_at:
  "update_at fs t n = Some fs' \<Longrightarrow> \<not> is_dir_node (node_at fs t) \<Longrightarrow>
   (\<And>c cs. node_at n (c # cs) = None) \<Longrightarrow> q \<noteq> t \<Longrightarrow>
   is_dir_node (node_at fs' q) = is_dir_node (node_at fs q)"
proof (induction fs t n arbitrary: fs' q rule: update_at.induct)
  case (1 uu t n)
  then show ?case by simp
next
  case (2 es n)
  then show ?case by simp
next
  case (3 es c n)
  from "3.prems"(1) have fs': "fs' = Dir (AList.update c n es)" by simp
  note leaf = "3.prems"(3)
  show ?case
  proof (cases q)
    case Nil
    with fs' show ?thesis by simp
  next
    case (Cons d qs)
    show ?thesis
    proof (cases "d = c")
      case True
      with Cons "3.prems"(4) obtain e es' where qs: "qs = e # es'" by (cases qs) auto
      from "3.prems"(2) have "\<not> is_dir_node (map_of es c)"
        by (auto split: option.splits)
      then have old: "node_at (Dir es) (c # e # es') = None"
        by (cases "map_of es c" rule: is_dir_node.cases) auto
      have "node_at fs' (c # e # es') = node_at n (e # es')"
        using fs' by (simp add: update_conv')
      also have "\<dots> = None" by (rule leaf)
      finally show ?thesis using old Cons True qs by simp
    next
      case False
      with fs' Cons show ?thesis by (simp add: update_conv')
    qed
  qed
next
  case (4 es c c' cs n)
  from "4.prems"(1) obtain m m' where m: "map_of es c = Some m" "update_at m (c' # cs) n = Some m'"
    "fs' = Dir (AList.update c m' es)"
    by (auto split: option.splits)
  from "4.prems"(2) m(1) have nd: "\<not> is_dir_node (node_at m (c' # cs))" by simp
  show ?case
  proof (cases q)
    case Nil
    with m show ?thesis by simp
  next
    case (Cons d qs)
    show ?thesis
    proof (cases "d = c")
      case True
      with Cons "4.prems"(4) have "qs \<noteq> c' # cs" by simp
      from "4.IH" [OF m(1) m(2) nd "4.prems"(3) this]
      have "is_dir_node (node_at m' qs) = is_dir_node (node_at m qs)" .
      with m Cons True show ?thesis by (simp add: update_conv')
    next
      case False
      with m Cons show ?thesis by (simp add: update_conv')
    qed
  qed
qed

lemma walk_cong:
  "(\<And>q. is_dir_node (node_at fs' q) = is_dir_node (node_at fs q)) \<Longrightarrow>
   walk fs' cur cs = walk fs cur cs"
  by (induction cs arbitrary: cur) auto

lemma read_back:
  assumes w: "write_file fs path (Some pages) = Some fs'"
  shows "read_pdf fs' path = Some pages"
proof -
  let ?cs = "components path"
  let ?name = "last ?cs"
  from w have pne: "path \<noteq> []" by (auto simp: write_file_def)
  from w pne obtain p where p: "walk fs [] (butlast ?cs) = Some p"
    and name: "?name \<noteq> []" "?name \<noteq> ''.''" "?name \<noteq> ''..''"
    and dir: "is_dir_node (node_at fs p)" and nd: "\<not> is_dir_node (node_at fs (p @ [?name]))"
    and u: "update_at fs (p @ [?name]) (File (Some pages)) = Some fs'"
    by (auto simp: write_file_def Let_def split: option.splits if_splits)
  have same: "is_dir_node (node_at fs' q) = is_dir_node (node_at fs q)" for q
  proof (cases "q = p @ [?name]")
    case True
    with nd node_at_update_at [OF u] show ?thesis by simp
  next
    case False
    show ?thesis by (rule is_dir_update_at [OF u nd _ False]) simp
  qed
  have cs: "?cs = butlast ?cs @ [?name]" using components_nonempty by simp
  have "walk fs' [] ?cs = walk fs [] ?cs" using same by (rule walk_cong)
  also have "\<dots> = walk fs [] (butlast ?cs @ [?name])" using cs by simp
  also have "\<dots> = Some (p @ [?name])" using p name dir by (simp add: walk_append)
  finally have "walk fs' [] ?cs = Some (p @ [?name])" .
  with pne node_at_update_at [OF u] show ?thesis
    by (simp add: read_pdf_def resolve_def)
qed

lemma merge_pages_Cons: "merge_pages merge (p # ps) [overlay] = merge p overlay # ps"
  unfolding merge_pages_def Let_def
  by (rule nth_equalityI) (auto simp: nth_Cons' simp del: upt_Suc)

lemma merge_pages_single:
  "merge_pages merge template_pages [overlay] =
     (case template_pages of [] \<Rightarrow> [] | p # ps \<Rightarrow> merge p overlay # ps)"
  by (cases template_pages) (simp_all add: merge_pages_Cons, simp add: merge_pages_def)

lemma node_at_parent_dir:
  "node_at fs (p @ q) = Some n \<Longrightarrow> q \<noteq> [] \<Longrightarrow> is_dir_node (node_at fs p)"
  by (cases "node_at fs p" rule: is_dir_node.cases; cases q)
     (auto simp: node_at_append)

lemma is_dir_butlast: "is_dir_node (node_at fs cur) \<Longrightarrow> is_dir_node (node_at fs (butlast cur))"
proof (cases "cur = []")
  case True
  assume "is_dir_node (node_at fs cur)"
  with True show ?thesis by simp
next
  case False
  assume d: "is_dir_node (node_at fs cur)"
  then obtain n where "node_at fs cur = Some n" by (cases "node_at fs cur") auto
  with False have "node_at fs (butlast cur @ [last cur]) = Some n" by simp
  then show ?thesis by (rule node_at_parent_dir) simp
qed

lemma mkdirs_mono:
  "mkdirs fs cur cs = Some fs' \<Longrightarrow> is_dir_node (node_at fs q) \<Longrightarrow> is_dir_node (node_at fs' q)"
proof (induction cs arbitrary: fs cur)
  case Nil
  then show ?case by simp
next
  case (Cons c cs)
  from Cons.prems(1) have dir: "is_dir_node (node_at fs cur)" by (auto split: if_splits)
  consider (stay) "c = [] \<or> c = ''.''" | (up) "c = ''..''"
    | (name) "c \<noteq> []" "c \<noteq> ''.''" "c \<noteq> ''..''" by blast
  then show ?case
  proof cases
    case stay
    with Cons.prems dir have "mkdirs fs cur cs = Some fs'" by auto
    then show ?thesis using Cons.prems(2) by (rule Cons.IH)
  next
    case up
    with Cons.prems dir have "mkdirs fs (butlast cur) cs = Some fs'" by auto
    then show ?thesis using Cons.prems(2) by (rule Cons.IH)
  next
    case name
    show ?thesis
    proof (cases "node_at fs (cur @ [c])")
      case None
      with Cons.prems(1) dir name obtain fs1 where
        u: "update_at fs (cur @ [c]) (Dir []) = Some fs1" and m: "mkdirs fs1 (cur @ [c]) cs = Some fs'"
        by (auto split: option.splits)
      from None Cons.prems(2) have "q \<noteq> cur @ [c]" by auto
      with None have "is_dir_node (node_at fs1 q) = is_dir_node (node_at fs q)"
        by (intro is_dir_update_at [OF u]) auto
      with Cons.prems(2) have "is_dir_node (node_at fs1 q)" by simp
      with m show ?thesis by (rule Cons.IH)
    next
      case (Some n)
      with Cons.prems(1) dir name have "mkdirs fs (cur @ [c]) cs = Some fs'"
        by (cases n) auto
      then show ?thesis using Cons.prems(2) by (rule Cons.IH)
    qed
  qed
qed

lemma mkdirs_walk:
  "mkdirs fs cur cs = Some fs' \<Longrightarrow> is_dir_node (node_at fs cur) \<Longrightarrow>
   \<exists>q. walk fs' cur cs = Some q \<and> is_dir_node (node_at fs' q)"
proof (induction cs arbitrary: fs cur)
  case Nil
  then show ?case by simp
next
  case (Cons c cs)
  note dir = Cons.prems(2)
  from Cons.prems have dir': "is_dir_node (node_at fs' cur)" by (rule mkdirs_mono)
  consider (stay) "c = [] \<or> c = ''.''" | (up) "c = ''..''"
    | (name) "c \<noteq> []" "c \<noteq> ''.''" "c \<noteq> ''..''" by blast
  then show ?case
  proof cases
    case stay
    with Cons.prems have "mkdirs fs cur cs = Some fs'" by auto
    from Cons.IH [OF this dir] stay dir' show ?thesis by auto
  next
    case up
    with Cons.prems have "mkdirs fs (butlast cur) cs = Some fs'" by auto
    from Cons.IH [OF this is_dir_butlast [OF dir]] up dir' show ?thesis by auto
  next
    case name
    have "\<exists>q. walk fs' (cur @ [c]) cs = Some q \<and> is_dir_node (node_at fs' q)"
    proof (cases "node_at fs (cur @ [c])")
      case None
      with Cons.prems(1) dir name obtain fs1 where
        u: "update_at fs (cur @ [c]) (Dir []) = Some fs1" and m: "mkdirs fs1 (cur @ [c]) cs = Some fs'"
        by (auto split: option.splits)
      from node_at_update_at [OF u] have "is_dir_node (node_at fs1 (cur @ [c]))" by simp
      with m show ?thesis by (rule Cons.IH)
    next
      case (Some n)
      with Cons.prems(1) dir name obtain es where n: "n = Dir es"
        and m: "mkdirs fs (cur @ [c]) cs = Some fs'"
        by (cases n) auto
      from Some n have "is_dir_node (node_at fs (cur @ [c]))" by simp
      with m show ?thesis by (rule Cons.IH)
    qed
    with name dir' show ?thesis by auto
  qed
qed

lemma makedirs_isdir: "makedirs fs path = Some fs' \<Longrightarrow> isdir fs' path"
proof -
  assume a: "makedirs fs path = Some fs'"
  then have pne: "path \<noteq> []" and m: "mkdirs fs [] (components path) = Some fs'"
    by (auto simp: makedirs_def split: if_splits)
  obtain c cs where cs: "components path = c # cs"
    using components_nonempty by (cases "components path") auto
  with m have "is_dir_node (node_at fs [])" by (auto split: if_splits)
  with m obtain q where "walk fs' [] (components path) = Some q" "is_dir_node (node_at fs' q)"
    using mkdirs_walk by blast
  with pne show ?thesis by (simp add: isdir_def resolve_def)
qed

section \<open>The item loop\<close>

lemma process_row_row_result:
  "process_row lib fm (es, qd) i =
     (case row_result lib fm i of
        None \<Rightarrow> (es @ [IncompleteItem (i + 1)], qd)
      | Some it \<Rightarrow> (es, add_item lib qd it))"
  by (auto simp: process_row_def row_result_def add_item_def split: option.splits prod.splits)

lemma foldl_process_row:
  "foldl (process_row lib fm) (es, qd) is =
     (es @ map (\<lambda>i. IncompleteItem (i + 1)) (filter (\<lambda>i. row_result lib fm i = None) is),
      foldl (add_item lib) qd (List.map_filter (row_result lib fm) is))"
proof (induction "is" arbitrary: es qd)
  case Nil
  then show ?case by (simp add: List.map_filter_simps)
next
  case (Cons i "is")
  show ?case
  proof (cases "row_result lib fm i")
    case None
    with Cons show ?thesis
      by (simp add: process_row_row_result List.map_filter_simps)
  next
    case (Some it)
    with Cons show ?thesis
      by (simp add: process_row_row_result List.map_filter_simps)
  qed
qed

lemma add_item_fields [simp]:
  "quotation_no (add_item lib qd it) = quotation_no qd"
  "client_name (add_item lib qd it) = client_name qd"
  "rep (add_item lib qd it) = rep qd"
  "date (add_item lib qd it) = date qd"
  "quote_items (add_item lib qd it) = quote_items qd @ [it]"
  by (simp_all add: add_item_def)

lemma foldl_add_item_fields [simp]:
  "quotation_no (foldl (add_item lib) qd its) = quotation_no qd"
  "client_name (foldl (add_item lib) qd its) = client_name qd"
  "rep (foldl (add_item lib) qd its) = rep qd"
  "date (foldl (add_item lib) qd its) = date qd"
  "quote_items (foldl (add_item lib) qd its) = quote_items qd @ its"
  by (induction its arbitrary: qd) simp_all

lemma totals_ok_add_item: "totals_ok lib qd \<Longrightarrow> totals_ok lib (add_item lib qd it)"
  by (simp add: totals_ok_def add_item_def)

lemma totals_ok_foldl: "totals_ok lib qd \<Longrightarrow> totals_ok lib (foldl (add_item lib) qd its)"
  by (induction its arbitrary: qd) (simp_all add: totals_ok_add_item)

lemma process_items_cases:
  "process_items lib fm (es, qd) =
     (if \<not> (length (quantities fm) = length (rates fm) \<and> length (rates fm) = length (amounts fm)
            \<and> length (amounts fm) = length (vats fm))
      then (es @ [InvalidItemData], qd)
      else if 60 < length (quantities fm) then (es @ [TooManyItems 60], qd)
      else (es @ map (\<lambda>i. IncompleteItem (i + 1))
                  (filter (\<lambda>i. row_result lib fm i = None) [0..<length (quantities fm)]),
            foldl (add_item lib) qd
              (List.map_filter (row_result lib fm) [0..<length (quantities fm)])))"
  by (simp add: process_items_def foldl_process_row)

lemma process_items_data:
  "\<exists>its. snd (process_items lib fm (es, qd)) = foldl (add_item lib) qd its
         \<and> (\<forall>it\<in>set its. \<exists>i<length (quantities fm). row_result lib fm i = Some it)"
proof -
  let ?its = "List.map_filter (row_result lib fm) [0..<length (quantities fm)]"
  have r: "\<forall>it\<in>set ?its. \<exists>i<length (quantities fm). row_result lib fm i = Some it"
    by (auto simp: List.map_filter_def)
  show ?thesis
  proof (cases "\<not> (length (quantities fm) = length (rates fm) \<and> length (rates fm) = length (amounts fm)
            \<and> length (amounts fm) = length (vats fm)) \<or> 60 < length (quantities fm)")
    case True
    then have "snd (process_items lib fm (es, qd)) = foldl (add_item lib) qd []"
      by (auto simp: process_items_cases)
    then show ?thesis by (intro exI [of _ "[]"]) simp
  next
    case False
    then have "snd (process_items lib fm (es, qd)) = foldl (add_item lib) qd ?its"
      by (auto simp: process_items_cases)
    with r show ?thesis by blast
  qed
qed


section \<open>The submission branch\<close>

lemma process_items_keeps:
  "client_name (snd (process_items lib fm (es, qd))) = client_name qd"
  "rep (snd (process_items lib fm (es, qd))) = rep qd"
  "quotation_no (snd (process_items lib fm (es, qd))) = quotation_no qd"
  "date (snd (process_items lib fm (es, qd))) = date qd"
  by (simp_all add: process_items_cases)

lemma submission_validated:
  "submission lib cfg draws fs fm files serrs qd0 =
     (case generate_quotation_number (snd (ensure_output_dir fs (submitted_dir cfg fm)))
             (submitted_dir cfg fm) draws of
        None \<Rightarrow> None
      | Some number \<Rightarrow>
          (let v = validated lib cfg fs fm qd0 number;
               fs1 = snd (ensure_output_dir fs (submitted_dir cfg fm));
               output_file = output_file_name (submitted_dir cfg fm) number
                               (sanitize (form_client_name fm));
               template_path = path_join (template_dir cfg) ''QUOTATION.pdf'';
               rendered = (\<lambda>es. Some \<lparr>errors = es, data = snd v, success = False,
                                        quotation_files = files, search_errors = serrs,
                                        storage = fs1\<rparr>)
           in if fst v = [] then
                if \<not> path_exists fs1 template_path then rendered [TemplateNotFound template_path]
                else if \<not> (path_exists fs1 (submitted_dir cfg fm) \<and> w_ok lib (submitted_dir cfg fm))
                then rendered [NotWritable (submitted_dir cfg fm)]
                else (case create_quotation_pdf lib fs1 output_file (snd v) template_path of
                        Inl e \<Rightarrow> rendered [PdfGenerationFailed e]
                      | Inr fs2 \<Rightarrow>
                          Some \<lparr>errors = [], data = snd v, success = True,
                                quotation_files = files, search_errors = serrs,
                                storage = fs2\<rparr>)
              else rendered (fst v)))"
  by (simp add: submission_def validated_def submitted_dir_def Let_def process_items_keeps
      split: option.splits prod.splits sum.splits)

section \<open>The handler always answers\<close>

lemma isdir_listdir: "isdir fs p \<Longrightarrow> \<exists>names. listdir fs p = Some names"
  by (cases "resolve fs p" rule: is_dir_node.cases) (auto simp: isdir_def listdir_def)

lemma collect_returns:
  "\<forall>d\<in>set dirs. isdir fs (path_join base d) \<Longrightarrow> \<exists>rs. collect lower fs base q dirs = Some rs"
proof (induction dirs)
  case Nil
  then show ?case by simp
next
  case (Cons d dirs)
  then obtain names rs where "listdir fs (path_join base d) = Some names"
    "collect lower fs base q dirs = Some rs"
    using isdir_listdir [of fs "path_join base d"] by auto
  then show ?case by (simp add: Let_def)
qed

lemma get_quotation_files_returns: "\<exists>r. get_quotation_files lower fs base q rp = Some r"
proof (cases "isdir fs base")
  case False
  then show ?thesis by (simp add: get_quotation_files_def)
next
  case True
  then obtain names where n: "listdir fs base = Some names" using isdir_listdir by blast
  let ?dirs = "filter (\<lambda>d. isdir fs (path_join base d) \<and> (rp = [] \<or> py_in (lower rp) (lower d))) names"
  have "\<forall>d\<in>set ?dirs. isdir fs (path_join base d)" by simp
  then obtain rs where "collect lower fs base q ?dirs = Some rs" using collect_returns by blast
  with True n show ?thesis by (simp add: get_quotation_files_def Let_def)
qed

lemma index_post:
  assumes "form_search_quotation_no fm = []" "form_search_rep fm = []"
  shows "\<exists>files serrs. index lib cfg draws fs (POST fm) =
           submission lib cfg draws fs fm files serrs (initial_data lib)"
proof -
  obtain r where "get_quotation_files (py_lower lib) fs (quotations_dir cfg) [] [] = Some r"
    using get_quotation_files_returns by blast
  with assms have "index lib cfg draws fs (POST fm) =
      submission lib cfg draws fs fm (case r of Inl e \<Rightarrow> [] | Inr results \<Rightarrow> results)
        (case r of Inl e \<Rightarrow> [e] | Inr results \<Rightarrow> []) (initial_data lib)"
    by (simp add: index_def initial_data_def Let_def)
  then show ?thesis by blast
qed

lemma submission_outcome:
  "\<exists>number out.
     generate_quotation_number (snd (ensure_output_dir fs (submitted_dir cfg fm)))
       (submitted_dir cfg fm) draws = Some number
     \<and> submission lib cfg draws fs fm files serrs qd0 = Some out
     \<and> data out = snd (validated lib cfg fs fm qd0 number)
     \<and> (fst (validated lib cfg fs fm qd0 number) \<noteq> [] \<longrightarrow>
          errors out = fst (validated lib cfg fs fm qd0 number))
     \<and> (errors out \<noteq> [] \<longrightarrow>
          \<not> success out \<and> storage out = snd (ensure_output_dir fs (submitted_dir cfg fm)))
     \<and> (success out \<longrightarrow> errors out = [] \<and> fst (validated lib cfg fs fm qd0 number) = [])"
proof -
  obtain number where n: "generate_quotation_number (snd (ensure_output_dir fs (submitted_dir cfg fm)))
       (submitted_dir cfg fm) draws = Some number"
    using generate_quotation_number_returns by blast
  show ?thesis
    apply (rule exI [of _ number])
    apply (simp add: submission_validated n Let_def split: sum.splits)
    done
qed

lemma index_outcome:
  assumes "form_search_quotation_no fm = []" "form_search_rep fm = []"
  shows "\<exists>number out.
     generate_quotation_number (snd (ensure_output_dir fs (submitted_dir cfg fm)))
       (submitted_dir cfg fm) draws = Some number
     \<and> index lib cfg draws fs (POST fm) = Some out
     \<and> data out = snd (validated lib cfg fs fm (initial_data lib) number)
     \<and> (fst (validated lib cfg fs fm (initial_data lib) number) \<noteq> [] \<longrightarrow>
          errors out = fst (validated lib cfg fs fm (initial_data lib) number))
     \<and> (errors out \<noteq> [] \<longrightarrow>
          \<not> success out \<and> storage out = snd (ensure_output_dir fs (submitted_dir cfg fm)))
     \<and> (success out \<longrightarrow> errors out = []
          \<and> fst (validated lib cfg fs fm (initial_data lib) number) = [])"
proof -
  from index_post [OF assms] obtain files serrs where
    "index lib cfg draws fs (POST fm) = submission lib cfg draws fs fm files serrs (initial_data lib)"
    by blast
  with submission_outcome [of fs cfg fm draws lib files serrs "initial_data lib"]
  show ?thesis by auto
qed

lemma validated_items:
  "quote_items (snd (validated lib cfg fs fm (initial_data lib) number)) =
     (if length (quantities fm) = length (rates fm) \<and> length (rates fm) = length (amounts fm)
         \<and> length (amounts fm) = length (vats fm) \<and> length (quantities fm) \<le> 60
      then List.map_filter (row_result lib fm) [0..<length (quantities fm)] else [])"
  by (auto simp: validated_def Let_def process_items_cases)

lemma validated_errors:
  "fst (validated lib cfg fs fm (initial_data lib) number) =
     fst (ensure_output_dir fs (submitted_dir cfg fm))
     @ (if \<not> (length (quantities fm) = length (rates fm) \<and> length (rates fm) = length (amounts fm)
               \<and> length (amounts fm) = length (vats fm)) then [InvalidItemData]
        else if 60 < length (quantities fm) then [TooManyItems 60]
        else map (\<lambda>i. IncompleteItem (i + 1))
               (filter (\<lambda>i. row_result lib fm i = None) [0..<length (quantities fm)]))
     @ (if form_client_name fm = [] then [ClientNameRequired] else [])
     @ (if form_rep fm = [] then [RepresentativeRequired] else [])
     @ (if quote_items (snd (validated lib cfg fs fm (initial_data lib) number)) = []
        then [NoCompleteItem] else [])"
  by (auto simp: validated_def Let_def process_items_cases)

lemma validated_totals:
  "totals_ok lib (snd (validated lib cfg fs fm (initial_data lib) number))"
  "total (snd (validated lib cfg fs fm (initial_data lib) number)) =
     f_add lib (subtotal (snd (validated lib cfg fs fm (initial_data lib) number)))
               (tax (snd (validated lib cfg fs fm (initial_data lib) number)))"
  "quotation_no (snd (validated lib cfg fs fm (initial_data lib) number)) = number"
proof -
  let ?qd2 = "(initial_data lib)\<lparr>client_name := form_client_name fm, rep := form_rep fm,
                 quotation_no := number, quote_items := []\<rparr>"
  let ?es = "fst (ensure_output_dir fs (submitted_dir cfg fm))"
  have t0: "totals_ok lib ?qd2" by (simp add: totals_ok_def initial_data_def)
  obtain its where its: "snd (process_items lib fm (?es, ?qd2)) = foldl (add_item lib) ?qd2 its"
    using process_items_data by blast
  have "totals_ok lib (foldl (add_item lib) ?qd2 its)" using t0 by (rule totals_ok_foldl)
  with its have "totals_ok lib (snd (process_items lib fm (?es, ?qd2)))" by simp
  then show "totals_ok lib (snd (validated lib cfg fs fm (initial_data lib) number))"
    by (simp add: validated_def Let_def totals_ok_def)
  show "total (snd (validated lib cfg fs fm (initial_data lib) number)) =
     f_add lib (subtotal (snd (validated lib cfg fs fm (initial_data lib) number)))
               (tax (snd (validated lib cfg fs fm (initial_data lib) number)))"
    by (simp add: validated_def Let_def)
  show "quotation_no (snd (validated lib cfg fs fm (initial_data lib) number)) = number"
    by (simp add: validated_def Let_def process_items_keeps)
qed

section \<open>Creating directories writes no file\<close>

lemma file_update_at_dir:
  "update_at fs t (Dir []) = Some fs' \<Longrightarrow> node_at fs t = None \<Longrightarrow>
   (node_at fs' q = Some (File c)) = (node_at fs q = Some (File c))"
proof (induction fs t "Dir [] :: 'a node" arbitrary: fs' q rule: update_at.induct)
  case (1 uu t)
  then show ?case by simp
next
  case (2 es)
  then show ?case by simp
next
  case (3 es d)
  from "3.prems"(1) have fs': "fs' = Dir (AList.update d (Dir []) es)" by simp
  from "3.prems"(2) have none: "map_of es d = None" by (auto split: option.splits)
  show ?case
  proof (cases q)
    case Nil
    with fs' show ?thesis by simp
  next
    case (Cons e qs)
    show ?thesis
    proof (cases "e = d")
      case True
      with fs' Cons none show ?thesis by (cases qs) (simp_all add: update_conv')
    next
      case False
      with fs' Cons show ?thesis by (simp add: update_conv')
    qed
  qed
next
  case (4 es d d' ds)
  from "4.prems"(1) obtain m m' where m: "map_of es d = Some m"
    "update_at m (d' # ds) (Dir []) = Some m'" "fs' = Dir (AList.update d m' es)"
    by (auto split: option.splits)
  from "4.prems"(2) m(1) have none: "node_at m (d' # ds) = None" by simp
  show ?case
  proof (cases q)
    case Nil
    with m show ?thesis by simp
  next
    case (Cons e qs)
    show ?thesis
    proof (cases "e = d")
      case True
      from "4.hyps" [OF m(1) m(2) none, of qs]
      have "(node_at m' qs = Some (File c)) = (node_at m qs = Some (File c))" .
      with m Cons True show ?thesis by (simp add: update_conv')
    next
      case False
      with m Cons show ?thesis by (simp add: update_conv')
    qed
  qed
qed

lemma mkdirs_files:
  "mkdirs fs cur cs = Some fs' \<Longrightarrow> (node_at fs' q = Some (File c)) = (node_at fs q = Some (File c))"
proof (induction cs arbitrary: fs cur)
  case Nil
  then show ?case by simp
next
  case (Cons d cs)
  from Cons.prems have dir: "is_dir_node (node_at fs cur)" by (auto split: if_splits)
  consider (stay) "d = [] \<or> d = ''.''" | (up) "d = ''..''"
    | (name) "d \<noteq> []" "d \<noteq> ''.''" "d \<noteq> ''..''" by blast
  then show ?case
  proof cases
    case stay
    with Cons.prems dir have "mkdirs fs cur cs = Some fs'" by auto
    then show ?thesis by (rule Cons.IH)
  next
    case up
    with Cons.prems dir have "mkdirs fs (butlast cur) cs = Some fs'" by auto
    then show ?thesis by (rule Cons.IH)
  next
    case name
    show ?thesis
    proof (cases "node_at fs (cur @ [d])")
      case None
      with Cons.prems dir name obtain fs1 where
        u: "update_at fs (cur @ [d]) (Dir []) = Some fs1" and m: "mkdirs fs1 (cur @ [d]) cs = Some fs'"
        by (auto split: option.splits)
      from m have "(node_at fs' q = Some (File c)) = (node_at fs1 q = Some (File c))"
        by (rule Cons.IH)
      also have "\<dots> = (node_at fs q = Some (File c))"
        using u None by (rule file_update_at_dir)
      finally show ?thesis .
    next
      case (Some n)
      with Cons.prems dir name have "mkdirs fs (cur @ [d]) cs = Some fs'"
        by (cases n) auto
      then show ?thesis by (rule Cons.IH)
    qed
  qed
qed

lemma ensure_output_dir_files: "files_of (snd (ensure_output_dir fs d)) = files_of fs"
  by (auto simp: ensure_output_dir_def files_of_def makedirs_def mkdirs_files
      split: option.splits if_splits)

lemma ensure_output_dir_cases:
  "ensure_output_dir fs d =
     (if path_exists fs d then ([], fs)
      else case makedirs fs d of None \<Rightarrow> ([FailedToCreateDirectory d], fs) | Some fs' \<Rightarrow> ([], fs'))"
  by (simp add: ensure_output_dir_def)

section \<open>Rows\<close>

lemma row_result_Some:
  "row_result lib fm i = Some it \<Longrightarrow>
     py_float lib (quantities fm ! i) = Some (quantity it)
     \<and> py_float lib (rates fm ! i) = Some (rate it)
     \<and> py_float lib (amounts fm ! i) = Some (amount it)
     \<and> py_bool lib (quantity it) \<and> py_bool lib (rate it) \<and> py_bool lib (amount it)"
  by (auto simp: row_result_def parse_row_def split: option.splits if_splits)

lemma row_result_None:
  "rejecting lib (quantities fm ! i) \<or> rejecting lib (rates fm ! i) \<or> rejecting lib (amounts fm ! i)
   \<Longrightarrow> row_result lib fm i = None"
  by (auto simp: row_result_def parse_row_def rejecting_def split: option.splits if_splits)

lemma row_result_accept:
  "py_float lib (quantities fm ! i) = Some q \<Longrightarrow> py_float lib (rates fm ! i) = Some r \<Longrightarrow>
   py_float lib (amounts fm ! i) = Some a \<Longrightarrow>
   (if vats fm ! i \<noteq> [] then py_float lib (vats fm ! i) else Some (f_int lib 0)) = Some v \<Longrightarrow>
   py_bool lib q \<Longrightarrow> py_bool lib r \<Longrightarrow> py_bool lib a \<Longrightarrow>
   row_result lib fm i = Some \<lparr>quantity = q, rate = r, amount = a, vat = v\<rparr>"
  by (simp add: row_result_def parse_row_def)

lemma map_filter_row_result:
  "set (List.map_filter (row_result lib fm) [0..<n]) = {it. \<exists>i<n. row_result lib fm i = Some it}"
  by (auto simp: List.map_filter_def) force

section \<open>The example submission\<close>

lemma generate_first:
  "\<not> path_exists fs (path_join d (candidate (draws 0) @ ''.pdf'')) \<Longrightarrow>
   generate_quotation_number fs d draws = Some (candidate (draws 0))"
  unfolding generate_quotation_number_def by (subst probe.simps) simp

lemma example_candidate: "candidate 42 = ''Q-042''"
  by (simp add: candidate_def zfill_def str.simps digit_char_def)

lemma example_dir:
  "ensure_output_dir example_fs ''/app/quotations/Acme'' =
     ([], Dir [(''app'', Dir [
      (''files'', Dir [(''QUOTATION.pdf'', File (Some [[''letterhead''], [''terms'']]))]),
      (''quotations'', Dir [(''Acme'', Dir [])])])])"
  by (simp add: ensure_output_dir_def makedirs_def example_fs_def path_exists_def resolve_def)

lemma example_rows:
  "row_result example_lib example_form 0 = Some \<lparr>quantity = 2, rate = 10, amount = 20, vat = 16\<rparr>"
  "row_result example_lib example_form (Suc 0) = None"
  "row_result example_lib example_form 2 = Some \<lparr>quantity = 3, rate = 7, amount = 21, vat = 0\<rparr>"
  by (simp_all add: row_result_def parse_row_def example_lib_def example_form_def int_numeral_def
      num_val_def digit_val_def)


lemma example_indices: "[0..<length (quantities example_form)] = [0, 1, 2]"
  by (simp add: example_form_def upt_rec)

lemma example_items:
  "List.map_filter (row_result example_lib example_form) [0, 1, 2] =
     [\<lparr>quantity = 2, rate = 10, amount = 20, vat = 16\<rparr>,
      \<lparr>quantity = 3, rate = 7, amount = 21, vat = 0\<rparr>]"
  "filter (\<lambda>i. row_result example_lib example_form i = None) [0, 1, 2] = [1]"
  by (simp_all add: List.map_filter_simps example_rows)

lemma example_validated:
  "validated example_lib example_cfg example_fs example_form (initial_data example_lib) ''Q-042'' =
     ([IncompleteItem 2],
      \<lparr>quotation_no = ''Q-042'', date = ''2024-01-01'', client_name = ''Bob Ltd'', rep = ''Acme'',
       quote_items = [\<lparr>quantity = 2, rate = 10, amount = 20, vat = 16\<rparr>,
                      \<lparr>quantity = 3, rate = 7, amount = 21, vat = 0\<rparr>],
       subtotal = 41, tax = 16 / 5, total = 221 / 5\<rparr>)"
proof -
  have d: "submitted_dir example_cfg example_form = ''/app/quotations/Acme''"
    by (simp add: submitted_dir_def example_cfg_def example_form_def sanitize_def path_join_def)
  have l: "length (quantities example_form) = 3" "length (rates example_form) = 3"
    "length (amounts example_form) = 3" "length (vats example_form) = 3"
    by (simp_all add: example_form_def)
  have f: "form_client_name example_form = ''Bob Ltd''" "form_rep example_form = ''Acme''"
    by (simp_all add: example_form_def)
  show ?thesis
    unfolding validated_def d example_dir Let_def process_items_cases example_indices example_items
    by (simp add: l f initial_data_def add_item_def example_lib_def)
qed

section \<open>Runs of the example submissions\<close>

lemma example_number:
  "generate_quotation_number acme_dir_fs ''/app/quotations/Acme'' example_draws = Some ''Q-042''"
proof -
  have "candidate (example_draws 0) = ''Q-042''" by (simp add: example_draws_def example_candidate)
  moreover have "\<not> path_exists acme_dir_fs (path_join ''/app/quotations/Acme'' (''Q-042'' @ ''.pdf''))"
    by (simp add: acme_dir_fs_def path_exists_def resolve_def path_join_def)
  ultimately show ?thesis using generate_first [of acme_dir_fs "''/app/quotations/Acme''" example_draws]
    by simp
qed

lemma example_submitted_dir:
  "submitted_dir example_cfg example_form = ''/app/quotations/Acme''"
  "submitted_dir example_cfg negative_form = ''/app/quotations/Acme''"
  "submitted_dir example_cfg mismatched_form = ''/app/quotations/Acme''"
  by (simp_all add: submitted_dir_def example_cfg_def example_form_def negative_form_def
      mismatched_form_def sanitize_def path_join_def)

lemma example_ensure: "ensure_output_dir example_fs ''/app/quotations/Acme'' = ([], acme_dir_fs)"
  by (simp add: example_dir acme_dir_fs_def)

lemma example_run:
  "\<exists>out. index example_lib example_cfg example_draws example_fs (POST example_form) = Some out
     \<and> data out =
         \<lparr>quotation_no = ''Q-042'', date = ''2024-01-01'', client_name = ''Bob Ltd'', rep = ''Acme'',
          quote_items = [\<lparr>quantity = 2, rate = 10, amount = 20, vat = 16\<rparr>,
                         \<lparr>quantity = 3, rate = 7, amount = 21, vat = 0\<rparr>],
          subtotal = 41, tax = 16 / 5, total = 221 / 5\<rparr>
     \<and> errors out = [IncompleteItem 2] \<and> \<not> success out \<and> storage out = acme_dir_fs"
proof -
  have s: "form_search_quotation_no example_form = []" "form_search_rep example_form = []"
    by (simp_all add: example_form_def)
  from index_outcome [OF s, of example_fs example_cfg example_draws example_lib]
  obtain number out where
    g: "generate_quotation_number acme_dir_fs ''/app/quotations/Acme'' example_draws = Some number"
    and i: "index example_lib example_cfg example_draws example_fs (POST example_form) = Some out"
    and d: "data out = snd (validated example_lib example_cfg example_fs example_form
                              (initial_data example_lib) number)"
    and e: "fst (validated example_lib example_cfg example_fs example_form
                   (initial_data example_lib) number) \<noteq> [] \<longrightarrow>
            errors out = fst (validated example_lib example_cfg example_fs example_form
                                (initial_data example_lib) number)"
    and r: "errors out \<noteq> [] \<longrightarrow> \<not> success out \<and> storage out = acme_dir_fs"
    by (auto simp: example_submitted_dir example_ensure)
  from g have n: "number = ''Q-042''" by (simp add: example_number)
  from d e r show ?thesis
    unfolding n example_validated using i by simp
qed

section \<open>Derived totals\<close>

text \<open>
  C3.  For every submission, the totals of the composed quotation are computed from the
  accepted rows of that request: \<open>subtotal\<close> is the sum of the amounts and \<open>tax\<close> the sum of
  \<open>amount * (vat / 100)\<close>, both accumulated in row order from the integer 0 with the
  program's own arithmetic, and \<open>total\<close> is \<open>subtotal + tax\<close>.  Nothing is carried over from
  another request: the handler starts from \<open>initial_data\<close>.  (This holds for all accepted
  rows, whatever their signs.)
\<close>

theorem submission_totals:
  assumes "form_search_quotation_no fm = []" "form_search_rep fm = []"
  shows "\<exists>out. index lib cfg draws fs (POST fm) = Some out
     \<and> subtotal (data out) = foldl (f_add lib) (f_int lib 0) (map amount (quote_items (data out)))
     \<and> tax (data out) = foldl (f_add lib) (f_int lib 0)
          (map (\<lambda>it. f_mul lib (amount it) (f_div lib (vat it) (f_int lib 100)))
               (quote_items (data out)))
     \<and> total (data out) = f_add lib (subtotal (data out)) (tax (data out))"
proof -
  from index_outcome [OF assms, of fs cfg draws lib] obtain number out where
    i: "index lib cfg draws fs (POST fm) = Some out"
    and d: "data out = snd (validated lib cfg fs fm (initial_data lib) number)"
    by blast
  from validated_totals(1,2) [of lib cfg fs fm number] d
  have "totals_ok lib (data out)" "total (data out) = f_add lib (subtotal (data out)) (tax (data out))"
    by simp_all
  with i show ?thesis by (auto simp: totals_ok_def)
qed

theorem submission_totals_witness:
  "form_search_quotation_no example_form = [] \<and> form_search_rep example_form = []
   \<and> map_option (quote_items \<circ> data)
        (index example_lib example_cfg example_draws example_fs (POST example_form))
      = Some [\<lparr>quantity = 2, rate = 10, amount = 20, vat = 16\<rparr>,
              \<lparr>quantity = 3, rate = 7, amount = 21, vat = 0\<rparr>]
   \<and> map_option (subtotal \<circ> data)
        (index example_lib example_cfg example_draws example_fs (POST example_form))
      = Some (0 + 20 + 21)
   \<and> map_option (tax \<circ> data)
        (index example_lib example_cfg example_draws example_fs (POST example_form))
      = Some (0 + 20 * (16 / 100) + 21 * (0 / 100))
   \<and> map_option (total \<circ> data)
        (index example_lib example_cfg example_draws example_fs (POST example_form))
      = Some (41 + 16 / 5)"
proof -
  have s: "form_search_quotation_no example_form = []" "form_search_rep example_form = []"
    by (simp_all add: example_form_def)
  from submission_totals [OF s, of example_lib example_cfg example_draws example_fs]
  obtain out where i: "index example_lib example_cfg example_draws example_fs (POST example_form) = Some out"
    and t: "subtotal (data out) =
              foldl (f_add example_lib) (f_int example_lib 0) (map amount (quote_items (data out)))"
      "tax (data out) = foldl (f_add example_lib) (f_int example_lib 0)
          (map (\<lambda>it. f_mul example_lib (amount it) (f_div example_lib (vat it) (f_int example_lib 100)))
               (quote_items (data out)))"
      "total (data out) = f_add example_lib (subtotal (data out)) (tax (data out))"
    by blast
  from example_run i have q: "quote_items (data out) =
      [\<lparr>quantity = 2, rate = 10, amount = 20, vat = 16\<rparr>,
       \<lparr>quantity = 3, rate = 7, amount = 21, vat = 0\<rparr>]"
    by auto
  from t q have "subtotal (data out) = 0 + 20 + 21"
    "tax (data out) = 0 + 20 * (16 / 100) + 21 * (0 / 100)"
    by (simp_all add: example_lib_def)
  moreover from this t(3) have "total (data out) = 41 + 16 / 5" by (simp add: example_lib_def)
  ultimately show ?thesis using s i q by simp
qed

section \<open>Submissions answered with errors\<close>

lemma index_rejected:
  assumes s: "form_search_quotation_no fm = []" "form_search_rep fm = []"
    and e: "\<And>number. e \<in> set (fst (validated lib cfg fs fm (initial_data lib) number))"
  shows "\<exists>number out. index lib cfg draws fs (POST fm) = Some out
     \<and> generate_quotation_number (snd (ensure_output_dir fs (submitted_dir cfg fm)))
           (submitted_dir cfg fm) draws = Some number
     \<and> data out = snd (validated lib cfg fs fm (initial_data lib) number)
     \<and> errors out = fst (validated lib cfg fs fm (initial_data lib) number)
     \<and> \<not> success out \<and> storage out = snd (ensure_output_dir fs (submitted_dir cfg fm))
     \<and> files_of (storage out) = files_of fs"
proof -
  from index_outcome [OF s, of fs cfg draws lib] obtain number out where
    g: "generate_quotation_number (snd (ensure_output_dir fs (submitted_dir cfg fm)))
           (submitted_dir cfg fm) draws = Some number"
    and i: "index lib cfg draws fs (POST fm) = Some out"
    and d: "data out = snd (validated lib cfg fs fm (initial_data lib) number)"
    and v: "fst (validated lib cfg fs fm (initial_data lib) number) \<noteq> [] \<longrightarrow>
            errors out = fst (validated lib cfg fs fm (initial_data lib) number)"
    and r: "errors out \<noteq> [] \<longrightarrow>
            \<not> success out \<and> storage out = snd (ensure_output_dir fs (submitted_dir cfg fm))"
    by blast
  from e [of number] have ne: "fst (validated lib cfg fs fm (initial_data lib) number) \<noteq> []" by auto
  with v have eo: "errors out = fst (validated lib cfg fs fm (initial_data lib) number)" by simp
  with ne r have "\<not> success out" "storage out = snd (ensure_output_dir fs (submitted_dir cfg fm))"
    by simp_all
  with g i d eo show ?thesis by (auto simp: ensure_output_dir_files)
qed

section \<open>Mismatched item arrays\<close>

text \<open>
  C6.  When the four item arrays do not all have the same length, the error list holds
  the aggregate error \<open>Invalid item data submitted.\<close> exactly once and no row error: no row
  is processed and \<open>quote_items\<close> stays empty.  The complete list is: the error of a failed
  directory creation if any, the aggregate error, the errors for a missing client or
  representative name, and \<open>At least one complete item is required.\<close>, which follows from
  the empty item list.  The submission is answered without success and no file is written.
\<close>

theorem mismatched_arrays_rejected:
  assumes "form_search_quotation_no fm = []" "form_search_rep fm = []"
    and "\<not> (length (quantities fm) = length (rates fm) \<and> length (rates fm) = length (amounts fm)
            \<and> length (amounts fm) = length (vats fm))"
  shows "\<exists>out. index lib cfg draws fs (POST fm) = Some out
     \<and> errors out =
         fst (ensure_output_dir fs (path_join (quotations_dir cfg) (sanitize (form_rep fm))))
         @ [InvalidItemData]
         @ (if form_client_name fm = [] then [ClientNameRequired] else [])
         @ (if form_rep fm = [] then [RepresentativeRequired] else [])
         @ [NoCompleteItem]
     \<and> count_list (errors out) InvalidItemData = 1
     \<and> (\<forall>r. IncompleteItem r \<notin> set (errors out))
     \<and> quote_items (data out) = []
     \<and> \<not> success out
     \<and> files_of (storage out) = files_of fs"
proof -
  have q: "quote_items (snd (validated lib cfg fs fm (initial_data lib) number)) = []" for number
    using assms(3) by (subst validated_items) auto
  have v: "fst (validated lib cfg fs fm (initial_data lib) number) =
         fst (ensure_output_dir fs (submitted_dir cfg fm))
         @ [InvalidItemData]
         @ (if form_client_name fm = [] then [ClientNameRequired] else [])
         @ (if form_rep fm = [] then [RepresentativeRequired] else [])
         @ [NoCompleteItem]" for number
    using assms(3) q [of number] by (subst validated_errors) auto
  have e: "InvalidItemData \<in> set (fst (validated lib cfg fs fm (initial_data lib) number))" for number
    by (subst v) simp
  from index_rejected [OF assms(1,2) e, of draws] obtain number out where
    o: "index lib cfg draws fs (POST fm) = Some out"
      "data out = snd (validated lib cfg fs fm (initial_data lib) number)"
      "errors out = fst (validated lib cfg fs fm (initial_data lib) number)"
      "\<not> success out" "files_of (storage out) = files_of fs"
    by blast
  have c: "fst (ensure_output_dir fs (submitted_dir cfg fm)) = []
           \<or> fst (ensure_output_dir fs (submitted_dir cfg fm)) = [FailedToCreateDirectory (submitted_dir cfg fm)]"
    by (auto simp: ensure_output_dir_cases split: option.splits)
  from o(3) v [of number] have eo: "errors out =
         fst (ensure_output_dir fs (submitted_dir cfg fm))
         @ [InvalidItemData]
         @ (if form_client_name fm = [] then [ClientNameRequired] else [])
         @ (if form_rep fm = [] then [RepresentativeRequired] else [])
         @ [NoCompleteItem]" by simp
  from eo c have "count_list (errors out) InvalidItemData = 1" by auto
  moreover from eo c have "\<forall>r. IncompleteItem r \<notin> set (errors out)" by auto
  ultimately show ?thesis using o q [of number] eo by (auto simp: submitted_dir_def)
qed

theorem mismatched_arrays_rejected_witness:
  "form_search_quotation_no mismatched_form = [] \<and> form_search_rep mismatched_form = []
   \<and> length (quantities mismatched_form) = 3 \<and> length (rates mismatched_form) = 2
   \<and> map_option errors (index example_lib example_cfg example_draws example_fs (POST mismatched_form))
     = Some [InvalidItemData, NoCompleteItem]
   \<and> map_option (quote_items \<circ> data)
        (index example_lib example_cfg example_draws example_fs (POST mismatched_form))
     = Some []
   \<and> map_option success (index example_lib example_cfg example_draws example_fs (POST mismatched_form))
     = Some False
   \<and> map_option (files_of \<circ> storage)
        (index example_lib example_cfg example_draws example_fs (POST mismatched_form))
     = Some (files_of example_fs)"
proof -
  have h: "form_search_quotation_no mismatched_form = []" "form_search_rep mismatched_form = []"
    "\<not> (length (quantities mismatched_form) = length (rates mismatched_form)
        \<and> length (rates mismatched_form) = length (amounts mismatched_form)
        \<and> length (amounts mismatched_form) = length (vats mismatched_form))"
    by (simp_all add: mismatched_form_def)
  have f: "form_client_name mismatched_form \<noteq> []" "form_rep mismatched_form \<noteq> []"
    "length (quantities mismatched_form) = 3" "length (rates mismatched_form) = 2"
    by (simp_all add: mismatched_form_def)
  have d: "fst (ensure_output_dir example_fs
             (path_join (quotations_dir example_cfg) (sanitize (form_rep mismatched_form)))) = []"
    using example_submitted_dir(3) example_ensure by (simp add: submitted_dir_def)
  from mismatched_arrays_rejected [OF h, of example_lib example_cfg example_draws example_fs]
  obtain out where "index example_lib example_cfg example_draws example_fs (POST mismatched_form) = Some out"
    "errors out = [InvalidItemData, NoCompleteItem]" "quote_items (data out) = []"
    "\<not> success out" "files_of (storage out) = files_of example_fs"
    unfolding d using f by auto
  with h f show ?thesis by simp
qed

section \<open>The output directory\<close>

lemma sanitize_safe:
  "\<forall>c\<in>set (sanitize s).
     c \<in> set ''ABCDEFGHIJKLMNOPQRSTUVWXYZabcdefghijklmnopqrstuvwxyz0123456789-_''"
  by (auto simp: sanitize_def)

text \<open>
  C10.  A submission sanitizes the representative name, creates the directory
  \<open><root>/<sanitized rep>\<close> when it does not exist, and draws the quotation number against
  the filesystem that this step left, all before the items are looked at: the number is in
  the quotation data whatever the validation says.  When the creation succeeds the
  directory exists afterwards, and a submission that is answered with errors leaves exactly
  that filesystem: the new directory is there and no file has been written.  (A creation
  that fails is reported as an error.)
\<close>

theorem directory_created_before_validation:
  assumes "form_search_quotation_no fm = []" "form_search_rep fm = []"
  shows "\<exists>out number. index lib cfg draws fs (POST fm) = Some out
     \<and> (\<forall>c\<in>set (sanitize (form_rep fm)).
           c \<in> set ''ABCDEFGHIJKLMNOPQRSTUVWXYZabcdefghijklmnopqrstuvwxyz0123456789-_'')
     \<and> generate_quotation_number
         (snd (ensure_output_dir fs (path_join (quotations_dir cfg) (sanitize (form_rep fm)))))
         (path_join (quotations_dir cfg) (sanitize (form_rep fm))) draws = Some number
     \<and> quotation_no (data out) = number
     \<and> (\<not> path_exists fs (path_join (quotations_dir cfg) (sanitize (form_rep fm))) \<longrightarrow>
          (\<forall>fs1. makedirs fs (path_join (quotations_dir cfg) (sanitize (form_rep fm))) = Some fs1 \<longrightarrow>
             isdir fs1 (path_join (quotations_dir cfg) (sanitize (form_rep fm)))
             \<and> (errors out \<noteq> [] \<longrightarrow> storage out = fs1))
          \<and> (makedirs fs (path_join (quotations_dir cfg) (sanitize (form_rep fm))) = None \<longrightarrow>
               FailedToCreateDirectory (path_join (quotations_dir cfg) (sanitize (form_rep fm)))
                 \<in> set (errors out)))
     \<and> (errors out \<noteq> [] \<longrightarrow> \<not> success out \<and> files_of (storage out) = files_of fs)"
proof -
  let ?od = "path_join (quotations_dir cfg) (sanitize (form_rep fm))"
  have od: "submitted_dir cfg fm = ?od" by (simp add: submitted_dir_def)
  from index_outcome [OF assms, of fs cfg draws lib] obtain number out where
    g: "generate_quotation_number (snd (ensure_output_dir fs ?od)) ?od draws = Some number"
    and i: "index lib cfg draws fs (POST fm) = Some out"
    and d: "data out = snd (validated lib cfg fs fm (initial_data lib) number)"
    and v: "fst (validated lib cfg fs fm (initial_data lib) number) \<noteq> [] \<longrightarrow>
            errors out = fst (validated lib cfg fs fm (initial_data lib) number)"
    and r: "errors out \<noteq> [] \<longrightarrow> \<not> success out \<and> storage out = snd (ensure_output_dir fs ?od)"
    unfolding od by blast
  from d have n: "quotation_no (data out) = number" by (simp add: validated_totals(3))
  have made: "isdir fs1 ?od \<and> (errors out \<noteq> [] \<longrightarrow> storage out = fs1)"
    if "\<not> path_exists fs ?od" "makedirs fs ?od = Some fs1" for fs1
    using that r makedirs_isdir [OF that(2)] by (simp add: ensure_output_dir_cases)
  have failed: "FailedToCreateDirectory ?od \<in> set (errors out)"
    if "\<not> path_exists fs ?od" "makedirs fs ?od = None"
  proof -
    from that have "fst (ensure_output_dir fs (submitted_dir cfg fm)) = [FailedToCreateDirectory ?od]"
      by (simp add: ensure_output_dir_cases od)
    then have "FailedToCreateDirectory ?od \<in> set (fst (validated lib cfg fs fm (initial_data lib) number))"
      by (subst validated_errors) simp
    with v show ?thesis by auto
  qed
  have files: "errors out \<noteq> [] \<longrightarrow> \<not> success out \<and> files_of (storage out) = files_of fs"
    using r by (auto simp: ensure_output_dir_files)
  have created: "\<not> path_exists fs ?od \<longrightarrow>
          (\<forall>fs1. makedirs fs ?od = Some fs1 \<longrightarrow>
             isdir fs1 ?od \<and> (errors out \<noteq> [] \<longrightarrow> storage out = fs1))
          \<and> (makedirs fs ?od = None \<longrightarrow> FailedToCreateDirectory ?od \<in> set (errors out))"
    using made failed by blast
  show ?thesis
    apply (rule exI [of _ out])
    apply (rule exI [of _ number])
    apply (intro conjI)
         apply (rule i)
        apply (rule sanitize_safe)
       apply (rule g)
      apply (rule n)
     apply (rule created)
    apply (rule files)
    done
qed

lemma example_makedirs:
  "\<not> path_exists example_fs ''/app/quotations/Acme''"
  "makedirs example_fs ''/app/quotations/Acme'' = Some acme_dir_fs"
  "isdir acme_dir_fs ''/app/quotations/Acme''"
  by (simp_all add: makedirs_def example_fs_def acme_dir_fs_def path_exists_def resolve_def isdir_def)

theorem directory_created_before_validation_witness:
  "form_search_quotation_no example_form = [] \<and> form_search_rep example_form = []
   \<and> form_rep example_form = ''Acme''
   \<and> path_join (quotations_dir example_cfg) (sanitize (form_rep example_form)) = ''/app/quotations/Acme''
   \<and> \<not> path_exists example_fs ''/app/quotations/Acme''
   \<and> makedirs example_fs ''/app/quotations/Acme'' = Some acme_dir_fs
   \<and> isdir acme_dir_fs ''/app/quotations/Acme''
   \<and> map_option errors (index example_lib example_cfg example_draws example_fs (POST example_form))
     = Some [IncompleteItem 2]
   \<and> map_option (quotation_no \<circ> data)
        (index example_lib example_cfg example_draws example_fs (POST example_form))
     = Some ''Q-042''
   \<and> map_option storage (index example_lib example_cfg example_draws example_fs (POST example_form))
     = Some acme_dir_fs
   \<and> map_option success (index example_lib example_cfg example_draws example_fs (POST example_form))
     = Some False
   \<and> files_of acme_dir_fs = files_of example_fs"
proof -
  have h: "form_search_quotation_no example_form = []" "form_search_rep example_form = []"
    by (simp_all add: example_form_def)
  have od: "path_join (quotations_dir example_cfg) (sanitize (form_rep example_form))
              = ''/app/quotations/Acme''"
    using example_submitted_dir(1) by (simp add: submitted_dir_def)
  from directory_created_before_validation [OF h, of example_lib example_cfg example_draws example_fs]
  obtain out where o: "index example_lib example_cfg example_draws example_fs (POST example_form) = Some out"
    and f: "errors out \<noteq> [] \<longrightarrow> \<not> success out \<and> files_of (storage out) = files_of example_fs"
    by blast
  from example_run o have e: "errors out = [IncompleteItem 2]" "storage out = acme_dir_fs"
    "quotation_no (data out) = ''Q-042''" "\<not> success out"
    by auto
  with f have "files_of acme_dir_fs = files_of example_fs" by simp
  with h od example_makedirs o e show ?thesis by (simp add: example_form_def)
qed

section \<open>Page count of the composed document\<close>

lemma example_compose:
  "create_quotation_pdf example_lib acme_dir_fs ''/app/quotations/Acme/Q-042_Bob_Ltd.pdf''
     example_quotation ''/app/files/QUOTATION.pdf'' = Inr stored_fs"
  by (simp add: create_quotation_pdf_def read_pdf_def write_file_def resolve_def acme_dir_fs_def
      stored_fs_def example_quotation_def example_lib_def merge_pages_single Let_def)

text \<open>
  C9.  Whenever \<open>create_quotation_pdf\<close> succeeds, the template was a readable document and
  the document read back from the output path has as many pages as the template: its first
  page is the template's first page merged with the overlay page drawn for the quotation,
  and every later page is the template's page, unchanged.
\<close>

theorem create_quotation_pdf_pages:
  assumes "create_quotation_pdf lib fs output_file quotation_data template_path = Inr fs'"
  shows "\<exists>template_pages output_pages.
           read_pdf fs template_path = Some template_pages
           \<and> read_pdf fs' output_file = Some output_pages
           \<and> length output_pages = length template_pages
           \<and> output_pages =
               (case template_pages of [] \<Rightarrow> []
                | p # ps \<Rightarrow> merge_page lib p (draw lib quotation_data) # ps)"
proof -
  from assms obtain template_pages where t: "read_pdf fs template_path = Some template_pages"
    and w: "write_file fs output_file
              (Some (merge_pages (merge_page lib) template_pages [draw lib quotation_data])) = Some fs'"
    by (auto simp: create_quotation_pdf_def Let_def split: option.splits)
  let ?out = "merge_pages (merge_page lib) template_pages [draw lib quotation_data]"
  have "read_pdf fs' output_file = Some ?out" using w by (rule read_back)
  moreover have "length ?out = length template_pages" by (simp add: merge_pages_def)
  moreover have "?out = (case template_pages of [] \<Rightarrow> []
                | p # ps \<Rightarrow> merge_page lib p (draw lib quotation_data) # ps)"
    by (rule merge_pages_single)
  ultimately show ?thesis using t by blast
qed

theorem create_quotation_pdf_pages_witness:
  "create_quotation_pdf example_lib acme_dir_fs ''/app/quotations/Acme/Q-042_Bob_Ltd.pdf''
     example_quotation ''/app/files/QUOTATION.pdf'' = Inr stored_fs
   \<and> read_pdf acme_dir_fs ''/app/files/QUOTATION.pdf'' = Some [[''letterhead''], [''terms'']]
   \<and> read_pdf stored_fs ''/app/quotations/Acme/Q-042_Bob_Ltd.pdf''
     = Some [[''letterhead'', ''Q-042'', ''Bob Ltd''], [''terms'']]"
proof -
  have t: "read_pdf acme_dir_fs ''/app/files/QUOTATION.pdf'' = Some [[''letterhead''], [''terms'']]"
    by (simp add: read_pdf_def resolve_def acme_dir_fs_def)
  from create_quotation_pdf_pages [OF example_compose] t
  have "read_pdf stored_fs ''/app/quotations/Acme/Q-042_Bob_Ltd.pdf''
     = Some [merge_page example_lib [''letterhead''] (draw example_lib example_quotation), [''terms'']]"
    by auto
  then have "read_pdf stored_fs ''/app/quotations/Acme/Q-042_Bob_Ltd.pdf''
     = Some [[''letterhead'', ''Q-042'', ''Bob Ltd''], [''terms'']]"
    by (simp add: example_lib_def example_quotation_def)
  with example_compose t show ?thesis by simp
qed

section \<open>Submissions whose rows are not processed\<close>

lemma index_unprocessed:
  assumes s: "form_search_quotation_no fm = []" "form_search_rep fm = []"
    and n: "\<not> (length (quantities fm) = length (rates fm) \<and> length (rates fm) = length (amounts fm)
              \<and> length (amounts fm) = length (vats fm) \<and> length (quantities fm) \<le> 60)"
  shows "\<exists>out. index lib cfg draws fs (POST fm) = Some out
     \<and> quote_items (data out) = []
     \<and> (\<forall>r. IncompleteItem r \<notin> set (errors out))
     \<and> (InvalidItemData \<in> set (errors out) \<or> TooManyItems 60 \<in> set (errors out))
     \<and> errors out \<noteq> [] \<and> \<not> success out
     \<and> storage out = snd (ensure_output_dir fs (submitted_dir cfg fm))
     \<and> files_of (storage out) = files_of fs"
proof -
  let ?agg = "if \<not> (length (quantities fm) = length (rates fm) \<and> length (rates fm) = length (amounts fm)
               \<and> length (amounts fm) = length (vats fm)) then InvalidItemData else TooManyItems 60"
  have q: "quote_items (snd (validated lib cfg fs fm (initial_data lib) number)) = []" for number
    using n by (subst validated_items) auto
  have v: "fst (validated lib cfg fs fm (initial_data lib) number) =
         fst (ensure_output_dir fs (submitted_dir cfg fm))
         @ [?agg]
         @ (if form_client_name fm = [] then [ClientNameRequired] else [])
         @ (if form_rep fm = [] then [RepresentativeRequired] else [])
         @ [NoCompleteItem]" for number
    using n q [of number] by (subst validated_errors) auto
  have e: "NoCompleteItem \<in> set (fst (validated lib cfg fs fm (initial_data lib) number))" for number
    by (subst v) simp
  from index_rejected [OF s e, of draws] obtain number out where
    o: "index lib cfg draws fs (POST fm) = Some out"
      "data out = snd (validated lib cfg fs fm (initial_data lib) number)"
      "errors out = fst (validated lib cfg fs fm (initial_data lib) number)"
      "\<not> success out" "storage out = snd (ensure_output_dir fs (submitted_dir cfg fm))"
      "files_of (storage out) = files_of fs"
    by blast
  have c: "fst (ensure_output_dir fs (submitted_dir cfg fm)) = []
           \<or> fst (ensure_output_dir fs (submitted_dir cfg fm)) = [FailedToCreateDirectory (submitted_dir cfg fm)]"
    by (auto simp: ensure_output_dir_cases split: option.splits)
  from o(3) v [of number] have eo: "errors out =
         fst (ensure_output_dir fs (submitted_dir cfg fm))
         @ [?agg]
         @ (if form_client_name fm = [] then [ClientNameRequired] else [])
         @ (if form_rep fm = [] then [RepresentativeRequired] else [])
         @ [NoCompleteItem]" by simp
  from eo c have "\<forall>r. IncompleteItem r \<notin> set (errors out)" by auto
  moreover from eo have "InvalidItemData \<in> set (errors out) \<or> TooManyItems 60 \<in> set (errors out)"
    by auto
  moreover from eo have "errors out \<noteq> []" by simp
  ultimately show ?thesis using o q [of number] by auto
qed

lemma index_processed:
  assumes s: "form_search_quotation_no fm = []" "form_search_rep fm = []"
    and l: "length (quantities fm) = length (rates fm)" "length (rates fm) = length (amounts fm)"
      "length (amounts fm) = length (vats fm)" "length (quantities fm) \<le> 60"
  shows "\<exists>out. index lib cfg draws fs (POST fm) = Some out
     \<and> quote_items (data out) = List.map_filter (row_result lib fm) [0..<length (quantities fm)]
     \<and> (\<forall>i<length (quantities fm). row_result lib fm i = None \<longrightarrow>
           IncompleteItem (i + 1) \<in> set (errors out))"
proof -
  from index_outcome [OF s, of fs cfg draws lib] obtain number out where
    i: "index lib cfg draws fs (POST fm) = Some out"
    and d: "data out = snd (validated lib cfg fs fm (initial_data lib) number)"
    and v: "fst (validated lib cfg fs fm (initial_data lib) number) \<noteq> [] \<longrightarrow>
            errors out = fst (validated lib cfg fs fm (initial_data lib) number)"
    by blast
  have items: "quote_items (data out) = List.map_filter (row_result lib fm) [0..<length (quantities fm)]"
    using d l by (simp add: validated_items)
  have r: "IncompleteItem (i + 1) \<in> set (errors out)"
    if "i < length (quantities fm)" "row_result lib fm i = None" for i
  proof -
    from that l have "IncompleteItem (i + 1) \<in> set (fst (validated lib cfg fs fm (initial_data lib) number))"
      by (subst validated_errors) auto
    with v show ?thesis by auto
  qed
  from i items r show ?thesis by blast
qed

section \<open>Accepted rows\<close>

text \<open>
  C4, as the code has it.  The test on a parsed row is Python truthiness: a row is accepted
  into \<open>quote_items\<close> only if its quantity, rate and amount parse and are all non-zero, so
  every entry of \<open>quote_items\<close> carries the parsed, non-zero values of some row; negative
  values pass.  When the four item arrays have the same length and hold at most 60 rows, a
  row in which one of the three fields is blank or otherwise unparseable, or parses to zero,
  is rejected with the row-level error for its row number.  When the lengths differ or
  there are more than 60 rows, no row is processed: \<open>quote_items\<close> is empty, there is no
  row-level error, and the aggregate error for the lengths or for the count is recorded.
\<close>

theorem accepted_rows_nonzero:
  assumes "form_search_quotation_no fm = []" "form_search_rep fm = []"
  shows "\<exists>out. index lib cfg draws fs (POST fm) = Some out
     \<and> (\<forall>it\<in>set (quote_items (data out)).
           py_bool lib (quantity it) \<and> py_bool lib (rate it) \<and> py_bool lib (amount it)
           \<and> (\<exists>i<length (quantities fm).
                 py_float lib (quantities fm ! i) = Some (quantity it)
                 \<and> py_float lib (rates fm ! i) = Some (rate it)
                 \<and> py_float lib (amounts fm ! i) = Some (amount it)))
     \<and> (length (quantities fm) = length (rates fm) \<and> length (rates fm) = length (amounts fm)
          \<and> length (amounts fm) = length (vats fm) \<and> length (quantities fm) \<le> 60 \<longrightarrow>
          (\<forall>i<length (quantities fm).
             rejecting lib (quantities fm ! i) \<or> rejecting lib (rates fm ! i)
             \<or> rejecting lib (amounts fm ! i) \<longrightarrow>
             IncompleteItem (i + 1) \<in> set (errors out)))
     \<and> (\<not> (length (quantities fm) = length (rates fm) \<and> length (rates fm) = length (amounts fm)
             \<and> length (amounts fm) = length (vats fm) \<and> length (quantities fm) \<le> 60) \<longrightarrow>
          quote_items (data out) = []
          \<and> (\<forall>r. IncompleteItem r \<notin> set (errors out))
          \<and> (InvalidItemData \<in> set (errors out) \<or> TooManyItems 60 \<in> set (errors out)))"
proof (cases "length (quantities fm) = length (rates fm) \<and> length (rates fm) = length (amounts fm)
             \<and> length (amounts fm) = length (vats fm) \<and> length (quantities fm) \<le> 60")
  case True
  then have l: "length (quantities fm) = length (rates fm)" "length (rates fm) = length (amounts fm)"
      "length (amounts fm) = length (vats fm)" "length (quantities fm) \<le> 60"
    by simp_all
  from index_processed [OF assms l, of lib cfg draws fs] obtain out where
    i: "index lib cfg draws fs (POST fm) = Some out"
    and items: "quote_items (data out) = List.map_filter (row_result lib fm) [0..<length (quantities fm)]"
    and r: "\<forall>i<length (quantities fm). row_result lib fm i = None \<longrightarrow>
              IncompleteItem (i + 1) \<in> set (errors out)"
    by blast
  have a: "py_bool lib (quantity it) \<and> py_bool lib (rate it) \<and> py_bool lib (amount it)
           \<and> (\<exists>i<length (quantities fm).
                 py_float lib (quantities fm ! i) = Some (quantity it)
                 \<and> py_float lib (rates fm ! i) = Some (rate it)
                 \<and> py_float lib (amounts fm ! i) = Some (amount it))"
    if "it \<in> set (quote_items (data out))" for it
  proof -
    from that obtain i where "i < length (quantities fm)" "row_result lib fm i = Some it"
      unfolding items map_filter_row_result by blast
    with row_result_Some [of lib fm i it] show ?thesis by blast
  qed
  have b: "IncompleteItem (i + 1) \<in> set (errors out)"
    if "i < length (quantities fm)"
      "rejecting lib (quantities fm ! i) \<or> rejecting lib (rates fm ! i)
             \<or> rejecting lib (amounts fm ! i)" for i
    using that r row_result_None [of lib fm i] by blast
  from i a b True show ?thesis by blast
next
  case False
  from index_unprocessed [OF assms False, of lib cfg draws fs] obtain out where
    "index lib cfg draws fs (POST fm) = Some out" "quote_items (data out) = []"
    "\<forall>r. IncompleteItem r \<notin> set (errors out)"
    "InvalidItemData \<in> set (errors out) \<or> TooManyItems 60 \<in> set (errors out)"
    by blast
  with False show ?thesis by auto
qed

lemma negative_row:
  "row_result example_lib negative_form 0 = Some \<lparr>quantity = - 1, rate = 5, amount = - 5, vat = 0\<rparr>"
  by (simp add: row_result_def parse_row_def example_lib_def negative_form_def int_numeral_def
      num_val_def digit_val_def)

lemma negative_run:
  "\<exists>out. index example_lib example_cfg example_draws example_fs (POST negative_form) = Some out
     \<and> quote_items (data out) = [\<lparr>quantity = - 1, rate = 5, amount = - 5, vat = 0\<rparr>]"
proof -
  have s: "form_search_quotation_no negative_form = []" "form_search_rep negative_form = []"
    by (simp_all add: negative_form_def)
  have l: "length (quantities negative_form) = 1" "length (rates negative_form) = 1"
    "length (amounts negative_form) = 1" "length (vats negative_form) = 1"
    by (simp_all add: negative_form_def)
  from index_outcome [OF s, of example_fs example_cfg example_draws example_lib]
  obtain number out where
    "index example_lib example_cfg example_draws example_fs (POST negative_form) = Some out"
    "data out = snd (validated example_lib example_cfg example_fs negative_form
                       (initial_data example_lib) number)"
    by blast
  then show ?thesis
    by (simp add: validated_items l List.map_filter_simps negative_row)
qed

lemma many_rows_run:
  "\<exists>out. index example_lib example_cfg example_draws example_fs (POST many_rows_form) = Some out
     \<and> errors out = [TooManyItems 60, NoCompleteItem] \<and> quote_items (data out) = []"
proof -
  have s: "form_search_quotation_no many_rows_form = []" "form_search_rep many_rows_form = []"
    by (simp_all add: many_rows_form_def)
  have l: "length (quantities many_rows_form) = 61" "length (rates many_rows_form) = 61"
    "length (amounts many_rows_form) = 61" "length (vats many_rows_form) = 61"
    "form_client_name many_rows_form \<noteq> []" "form_rep many_rows_form \<noteq> []"
    by (simp_all add: many_rows_form_def)
  have d: "submitted_dir example_cfg many_rows_form = ''/app/quotations/Acme''"
    by (simp add: submitted_dir_def example_cfg_def many_rows_form_def sanitize_def path_join_def)
  have q: "quote_items (snd (validated example_lib example_cfg example_fs many_rows_form
             (initial_data example_lib) number)) = []" for number
    by (subst validated_items) (simp add: l)
  have v: "fst (validated example_lib example_cfg example_fs many_rows_form
             (initial_data example_lib) number) = [TooManyItems 60, NoCompleteItem]" for number
    by (subst validated_errors) (simp add: l q d example_ensure)
  have e: "NoCompleteItem \<in> set (fst (validated example_lib example_cfg example_fs many_rows_form
             (initial_data example_lib) number))" for number
    by (simp add: v)
  from index_rejected [OF s e, of example_draws] obtain number out where
    "index example_lib example_cfg example_draws example_fs (POST many_rows_form) = Some out"
    "data out = snd (validated example_lib example_cfg example_fs many_rows_form
                       (initial_data example_lib) number)"
    "errors out = fst (validated example_lib example_cfg example_fs many_rows_form
                         (initial_data example_lib) number)"
    by blast
  then show ?thesis by (simp add: v q)
qed

lemma many_rows_zero: "py_float example_lib (quantities many_rows_form ! 0) = Some 0"
  by (simp add: example_lib_def many_rows_form_def int_numeral_def num_val_def digit_val_def)

text \<open>
  C4, as stated, fails twice.  The row \<open>(-1, 5, -5, blank)\<close> is accepted into \<open>quote_items\<close>,
  although its quantity and its amount are negative.  And in a submission of 61 rows the
  first row, whose quantity is 0, gets no row-level error: the only errors are the one for
  the count and the one for the empty item list.
\<close>

theorem negative_row_accepted:
  "map_option (quote_items \<circ> data)
     (index example_lib example_cfg example_draws example_fs (POST negative_form))
     = Some [\<lparr>quantity = - 1, rate = 5, amount = - 5, vat = 0\<rparr>]
   \<and> \<not> (0 :: rat) < - 1 \<and> \<not> (0 :: rat) < - 5
   \<and> py_float example_lib (quantities many_rows_form ! 0) = Some 0
   \<and> map_option errors
        (index example_lib example_cfg example_draws example_fs (POST many_rows_form))
     = Some [TooManyItems 60, NoCompleteItem]"
  using negative_run many_rows_run many_rows_zero by auto

lemma example_zero: "py_float example_lib (quantities example_form ! 1) = Some 0"
  "py_float example_lib (rates example_form ! 1) = Some 5"
  "py_float example_lib (amounts example_form ! 1) = Some 5"
  by (simp_all add: example_lib_def example_form_def int_numeral_def num_val_def digit_val_def)

theorem accepted_rows_nonzero_witness:
  "form_search_quotation_no example_form = [] \<and> form_search_rep example_form = []
   \<and> length (quantities example_form) = length (rates example_form)
   \<and> length (rates example_form) = length (amounts example_form)
   \<and> length (amounts example_form) = length (vats example_form)
   \<and> length (quantities example_form) \<le> 60 \<and> 1 < length (quantities example_form)
   \<and> rejecting example_lib (quantities example_form ! 1)
   \<and> map_option errors (index example_lib example_cfg example_draws example_fs (POST example_form))
     = Some [IncompleteItem 2]
   \<and> map_option (quote_items \<circ> data)
        (index example_lib example_cfg example_draws example_fs (POST example_form))
      = Some [\<lparr>quantity = 2, rate = 10, amount = 20, vat = 16\<rparr>,
              \<lparr>quantity = 3, rate = 7, amount = 21, vat = 0\<rparr>]
   \<and> py_bool example_lib 2 \<and> py_bool example_lib 10 \<and> py_bool example_lib 20
   \<and> py_bool example_lib 3 \<and> py_bool example_lib 7 \<and> py_bool example_lib 21
   \<and> form_search_quotation_no mismatched_form = [] \<and> form_search_rep mismatched_form = []
   \<and> length (quantities mismatched_form) \<noteq> length (rates mismatched_form)
   \<and> map_option (quote_items \<circ> data)
        (index example_lib example_cfg example_draws example_fs (POST mismatched_form))
      = Some []"
proof -
  have h: "form_search_quotation_no example_form = []" "form_search_rep example_form = []"
    by (simp_all add: example_form_def)
  have l: "length (quantities example_form) = length (rates example_form)"
    "length (rates example_form) = length (amounts example_form)"
    "length (amounts example_form) = length (vats example_form)"
    "length (quantities example_form) \<le> 60" "1 < length (quantities example_form)"
    by (simp_all add: example_form_def)
  have rj: "rejecting example_lib (quantities example_form ! 1)"
    using example_zero(1) by (simp add: rejecting_def example_lib_def)
  from accepted_rows_nonzero [OF h, of example_lib example_cfg example_draws example_fs]
  obtain out where o: "index example_lib example_cfg example_draws example_fs (POST example_form) = Some out"
    and t: "\<forall>it\<in>set (quote_items (data out)).
           py_bool example_lib (quantity it) \<and> py_bool example_lib (rate it)
           \<and> py_bool example_lib (amount it)"
    by blast
  from example_run o have q: "quote_items (data out) =
      [\<lparr>quantity = 2, rate = 10, amount = 20, vat = 16\<rparr>,
       \<lparr>quantity = 3, rate = 7, amount = 21, vat = 0\<rparr>]"
    and e: "errors out = [IncompleteItem 2]"
    by auto
  from t q have b: "py_bool example_lib 2 \<and> py_bool example_lib 10 \<and> py_bool example_lib 20
   \<and> py_bool example_lib 3 \<and> py_bool example_lib 7 \<and> py_bool example_lib 21"
    by simp
  have hm: "form_search_quotation_no mismatched_form = []" "form_search_rep mismatched_form = []"
    "length (quantities mismatched_form) \<noteq> length (rates mismatched_form)"
    by (simp_all add: mismatched_form_def)
  from accepted_rows_nonzero [OF hm(1,2), of example_lib example_cfg example_draws example_fs] hm(3)
  obtain out' where "index example_lib example_cfg example_draws example_fs (POST mismatched_form) = Some out'"
    "quote_items (data out') = []"
    by auto
  with h l rj o q e b hm show ?thesis by simp
qed

section \<open>Row errors and the persisted quotation\<close>

text \<open>
  C5, as the code has it.  Composition runs only when the error list is empty, so a
  submission that holds a row whose quantity parses to zero never produces a persisted
  quotation: it is answered with errors and without success, the filesystem is the one
  that the creation of the output directory left, and it holds the same files as before.
  When the four item arrays have the same length and hold at most 60 rows, the zero row is
  rejected with the row-level error and every other row whose quantity, rate and amount
  parse to non-zero numbers, and whose VAT is blank or parses, is still accepted into
  \<open>quote_items\<close>.  When the lengths differ or there are more than 60 rows, no row is
  processed: \<open>quote_items\<close> is empty and the aggregate error is recorded instead of a
  row-level one.
\<close>

theorem rejected_row_blocks_quotation:
  assumes "form_search_quotation_no fm = []" "form_search_rep fm = []"
    and "i < length (quantities fm)" "py_float lib (quantities fm ! i) = Some z" "\<not> py_bool lib z"
  shows "\<exists>out. index lib cfg draws fs (POST fm) = Some out
     \<and> errors out \<noteq> [] \<and> \<not> success out
     \<and> storage out =
         snd (ensure_output_dir fs (path_join (quotations_dir cfg) (sanitize (form_rep fm))))
     \<and> files_of (storage out) = files_of fs
     \<and> (length (quantities fm) = length (rates fm) \<and> length (rates fm) = length (amounts fm)
          \<and> length (amounts fm) = length (vats fm) \<and> length (quantities fm) \<le> 60 \<longrightarrow>
          IncompleteItem (i + 1) \<in> set (errors out)
          \<and> (\<forall>j<length (quantities fm). \<forall>q r a v.
                py_float lib (quantities fm ! j) = Some q \<and> py_float lib (rates fm ! j) = Some r
                \<and> py_float lib (amounts fm ! j) = Some a
                \<and> (if vats fm ! j \<noteq> [] then py_float lib (vats fm ! j) else Some (f_int lib 0)) = Some v
                \<and> py_bool lib q \<and> py_bool lib r \<and> py_bool lib a
                \<longrightarrow> \<lparr>quantity = q, rate = r, amount = a, vat = v\<rparr> \<in> set (quote_items (data out))))
     \<and> (\<not> (length (quantities fm) = length (rates fm) \<and> length (rates fm) = length (amounts fm)
             \<and> length (amounts fm) = length (vats fm) \<and> length (quantities fm) \<le> 60) \<longrightarrow>
          quote_items (data out) = []
          \<and> (\<forall>r. IncompleteItem r \<notin> set (errors out))
          \<and> (InvalidItemData \<in> set (errors out) \<or> TooManyItems 60 \<in> set (errors out)))"
proof (cases "length (quantities fm) = length (rates fm) \<and> length (rates fm) = length (amounts fm)
             \<and> length (amounts fm) = length (vats fm) \<and> length (quantities fm) \<le> 60")
  case True
  then have l: "length (quantities fm) = length (rates fm)" "length (rates fm) = length (amounts fm)"
      "length (amounts fm) = length (vats fm)" "length (quantities fm) \<le> 60"
    by simp_all
  from assms(4,5) have "rejecting lib (quantities fm ! i)" by (simp add: rejecting_def)
  then have rn: "row_result lib fm i = None" by (simp add: row_result_None)
  have e: "IncompleteItem (i + 1) \<in> set (fst (validated lib cfg fs fm (initial_data lib) number))"
    for number
    using l assms(3) rn by (subst validated_errors) auto
  from index_rejected [OF assms(1,2) e, of draws] obtain number out where
    o: "index lib cfg draws fs (POST fm) = Some out"
      "data out = snd (validated lib cfg fs fm (initial_data lib) number)"
      "errors out = fst (validated lib cfg fs fm (initial_data lib) number)"
      "\<not> success out" "storage out = snd (ensure_output_dir fs (submitted_dir cfg fm))"
      "files_of (storage out) = files_of fs"
    by blast
  have items: "quote_items (data out) = List.map_filter (row_result lib fm) [0..<length (quantities fm)]"
    using o(2) l by (simp add: validated_items)
  have acc: "\<lparr>quantity = q, rate = r, amount = a, vat = v\<rparr> \<in> set (quote_items (data out))"
    if "j < length (quantities fm)" "py_float lib (quantities fm ! j) = Some q"
      "py_float lib (rates fm ! j) = Some r" "py_float lib (amounts fm ! j) = Some a"
      "(if vats fm ! j \<noteq> [] then py_float lib (vats fm ! j) else Some (f_int lib 0)) = Some v"
      "py_bool lib q" "py_bool lib r" "py_bool lib a" for j q r a v
  proof -
    from that(2-8) have "row_result lib fm j = Some \<lparr>quantity = q, rate = r, amount = a, vat = v\<rparr>"
      by (rule row_result_accept)
    with that(1) show ?thesis unfolding items map_filter_row_result by blast
  qed
  from o(3) e [of number] have ie: "IncompleteItem (i + 1) \<in> set (errors out)" by simp
  then have "errors out \<noteq> []" by auto
  with o acc ie True show ?thesis by (auto simp: submitted_dir_def)
next
  case False
  from index_unprocessed [OF assms(1,2) False, of lib cfg draws fs] obtain out where
    "index lib cfg draws fs (POST fm) = Some out" "quote_items (data out) = []"
    "\<forall>r. IncompleteItem r \<notin> set (errors out)"
    "InvalidItemData \<in> set (errors out) \<or> TooManyItems 60 \<in> set (errors out)"
    "errors out \<noteq> []" "\<not> success out"
    "storage out = snd (ensure_output_dir fs (submitted_dir cfg fm))"
    "files_of (storage out) = files_of fs"
    by blast
  with False show ?thesis by (auto simp: submitted_dir_def)
qed

lemma example_acme_empty: "listdir acme_dir_fs ''/app/quotations/Acme'' = Some []"
  by (simp add: listdir_def acme_dir_fs_def resolve_def)

text \<open>
  C5, as stated, fails.  The example submission has the rows \<open>(2, 10, 20, 16)\<close>,
  \<open>(0, 5, 5, 16)\<close> and \<open>(3, 7, 21, blank)\<close>.  The second row is rejected with a row-level
  error and the other two are accepted, but no quotation is persisted: the handler answers
  without success and the representative's directory stays empty.  (And with 61 rows the
  zero row is not even given a row-level error.)
\<close>

theorem zero_row_no_quotation_persisted:
  "map_option errors (index example_lib example_cfg example_draws example_fs (POST example_form))
     = Some [IncompleteItem 2]
   \<and> map_option (quote_items \<circ> data)
        (index example_lib example_cfg example_draws example_fs (POST example_form))
     = Some [\<lparr>quantity = 2, rate = 10, amount = 20, vat = 16\<rparr>,
             \<lparr>quantity = 3, rate = 7, amount = 21, vat = 0\<rparr>]
   \<and> map_option success (index example_lib example_cfg example_draws example_fs (POST example_form))
     = Some False
   \<and> map_option storage (index example_lib example_cfg example_draws example_fs (POST example_form))
     = Some acme_dir_fs
   \<and> listdir acme_dir_fs ''/app/quotations/Acme'' = Some []
   \<and> py_float example_lib (quantities many_rows_form ! 0) = Some 0
   \<and> map_option errors
        (index example_lib example_cfg example_draws example_fs (POST many_rows_form))
     = Some [TooManyItems 60, NoCompleteItem]"
  using example_run example_acme_empty many_rows_run many_rows_zero by auto

theorem rejected_row_blocks_quotation_witness:
  "form_search_quotation_no example_form = [] \<and> form_search_rep example_form = []
   \<and> 1 < length (quantities example_form)
   \<and> py_float example_lib (quantities example_form ! 1) = Some 0 \<and> \<not> py_bool example_lib 0
   \<and> length (quantities example_form) = length (rates example_form)
   \<and> length (rates example_form) = length (amounts example_form)
   \<and> length (amounts example_form) = length (vats example_form)
   \<and> length (quantities example_form) \<le> 60
   \<and> map_option errors (index example_lib example_cfg example_draws example_fs (POST example_form))
     = Some [IncompleteItem 2]
   \<and> map_option (quote_items \<circ> data)
        (index example_lib example_cfg example_draws example_fs (POST example_form))
     = Some [\<lparr>quantity = 2, rate = 10, amount = 20, vat = 16\<rparr>,
             \<lparr>quantity = 3, rate = 7, amount = 21, vat = 0\<rparr>]
   \<and> map_option success (index example_lib example_cfg example_draws example_fs (POST example_form))
     = Some False
   \<and> map_option (files_of \<circ> storage)
        (index example_lib example_cfg example_draws example_fs (POST example_form))
     = Some (files_of example_fs)
   \<and> form_search_quotation_no many_rows_form = [] \<and> form_search_rep many_rows_form = []
   \<and> 0 < length (quantities many_rows_form)
   \<and> py_float example_lib (quantities many_rows_form ! 0) = Some 0
   \<and> \<not> length (quantities many_rows_form) \<le> 60
   \<and> map_option success (index example_lib example_cfg example_draws example_fs (POST many_rows_form))
     = Some False
   \<and> map_option (quote_items \<circ> data)
        (index example_lib example_cfg example_draws example_fs (POST many_rows_form))
     = Some []"
proof -
  have h: "form_search_quotation_no example_form = []" "form_search_rep example_form = []"
    "1 < length (quantities example_form)"
    by (simp_all add: example_form_def)
  have l: "length (quantities example_form) = length (rates example_form)"
    "length (rates example_form) = length (amounts example_form)"
    "length (amounts example_form) = length (vats example_form)"
    "length (quantities example_form) \<le> 60"
    by (simp_all add: example_form_def)
  have z: "\<not> py_bool example_lib 0" by (simp add: example_lib_def)
  from rejected_row_blocks_quotation [OF h example_zero(1) z,
      of example_cfg example_draws example_fs]
  obtain out where o: "index example_lib example_cfg example_draws example_fs (POST example_form) = Some out"
    "\<not> success out" "files_of (storage out) = files_of example_fs"
    by blast
  from example_run o(1) have q: "quote_items (data out) =
      [\<lparr>quantity = 2, rate = 10, amount = 20, vat = 16\<rparr>,
       \<lparr>quantity = 3, rate = 7, amount = 21, vat = 0\<rparr>]"
    and e: "errors out = [IncompleteItem 2]"
    by auto
  have hm: "form_search_quotation_no many_rows_form = []" "form_search_rep many_rows_form = []"
    "0 < length (quantities many_rows_form)"
    and nm: "\<not> length (quantities many_rows_form) \<le> 60"
    by (simp_all add: many_rows_form_def)
  from rejected_row_blocks_quotation [OF hm many_rows_zero z,
      of example_cfg example_draws example_fs] nm
  obtain out' where o': "index example_lib example_cfg example_draws example_fs (POST many_rows_form) = Some out'"
    "\<not> success out'" "quote_items (data out') = []"
    by auto
  from h l z example_zero(1) o q e hm nm many_rows_zero o' show ?thesis by simp
qed

end
